theory Spec2Isabelle
  imports Complex_Main "HOL-Library.Sublist"
begin

section \<open>Data model (types/redirect)\<close>

text \<open>
  The interfaces \<^verbatim>\<open>RedirectStep\<close>, \<^verbatim>\<open>RedirectResult\<close> and \<^verbatim>\<open>UrlCheckOptions\<close>.
  Optional fields (\<^verbatim>\<open>location?\<close>, \<^verbatim>\<open>error?\<close>, ...) are options, \<open>None\<close> standing for
  an absent or undefined field. Header objects are association lists from (lower-case)
  header names to values; \<^verbatim>\<open>headers.location\<close> is the lookup of the key \<open>location\<close>.
  The fields \<^verbatim>\<open>timing\<close>, \<^verbatim>\<open>performanceRating\<close> and \<^verbatim>\<open>recommendations\<close> are never written
  by the functions modelled here and are left out.
\<close>

record RedirectStep =
  url :: string
  statusCode :: int
  statusText :: string
  location :: "string option"
  headers :: "(string \<times> string) list"

record RedirectResult =
  initialUrl :: string
  finalUrl :: string
  steps :: "RedirectStep list"
  redirectCount :: int
  totalTime :: "int option"
  error :: "string option"

record UrlCheckOptions =
  userAgent :: "string option"
  timeout :: "int option"
  followRedirects :: "bool option"
  maxRedirects :: "int option"

text \<open>
  \<^verbatim>\<open>maxRedirects\<close> is a JavaScript number; the model takes the integers, where the
  arithmetic of the loop (decrement, comparison with 0) is exact (doubles are exact up to
  \<open>2^53\<close>; fractions, NaN and the infinities are outside the model). A field of
  \<open>UrlCheckOptions\<close> is \<open>None\<close> when reading the property gives \<^verbatim>\<open>undefined\<close>. As the
  argument of \<open>checkUrl\<close> the record stands for an options object each of whose keys is
  absent or holds a value; \<open>OptionsObject\<close> below is the argument in general, where an own
  key may also hold \<^verbatim>\<open>undefined\<close>.
\<close>

datatype 'a property = Absent | Undefined | Value 'a

record OptionsObject =
  userAgentKey :: "string property"
  timeoutKey :: "int property"
  followRedirectsKey :: "bool property"
  maxRedirectsKey :: "int property"

section \<open>The HTTP client and the runtime\<close>

text \<open>
  What \<^verbatim>\<open>axios.get\<close> resolves to: the response's status, reason phrase and headers.
\<close>

record Response =
  status :: int
  responseStatusText :: string
  responseHeaders :: "(string \<times> string) list"

text \<open>
  Values that can be thrown inside \<^verbatim>\<open>checkUrl\<close>: an axios error (its message, the
  response it may carry, and \<^verbatim>\<open>config?.url\<close>), any other instance of \<^verbatim>\<open>Error\<close> (its
  message), or a thrown value that is not an \<^verbatim>\<open>Error\<close>.
\<close>

datatype thrown =
  AxiosError string "Response option" "string option"
  | JsError string
  | NonError

text \<open>
  The environment of one call. \<open>httpGet n u ua t\<close> is the outcome of the request number
  \<open>n\<close> (counted from 0 within the call) to the URL \<open>u\<close>, sent with the User-Agent header
  \<open>ua\<close> and the timeout \<open>t\<close>: a response, whatever its status (\<^verbatim>\<open>validateStatus\<close> accepts
  all, and \<^verbatim>\<open>maxRedirects: 0\<close> stops axios from following), or a thrown value.
  \<open>resolveUrl loc base\<close> is \<^verbatim>\<open>new URL(loc, base).href\<close>; \<open>None\<close> when the constructor throws
  its TypeError (Invalid URL).
  \<open>startTime\<close> and \<open>endTime\<close> are the two readings of \<^verbatim>\<open>Date.now()\<close>.
\<close>

record env =
  httpGet :: "nat \<Rightarrow> string \<Rightarrow> string option \<Rightarrow> int option \<Rightarrow> thrown + Response"
  resolveUrl :: "string \<Rightarrow> string \<Rightarrow> string option"
  startTime :: int
  endTime :: int

section \<open>Status classification (utils/redirectUtils)\<close>

definition statusMap :: "(int \<times> string) list" where
  "statusMap =
    [(200, ''OK''), (201, ''Created''), (202, ''Accepted''), (204, ''No Content''),
     (300, ''Multiple Choices''), (301, ''Moved Permanently''), (302, ''Found''),
     (303, ''See Other''), (304, ''Not Modified''), (307, ''Temporary Redirect''),
     (308, ''Permanent Redirect''),
     (400, ''Bad Request''), (401, ''Unauthorized''), (403, ''Forbidden''),
     (404, ''Not Found''), (405, ''Method Not Allowed''), (408, ''Request Timeout''),
     (429, ''Too Many Requests''),
     (500, ''Internal Server Error''), (501, ''Not Implemented''), (502, ''Bad Gateway''),
     (503, ''Service Unavailable''), (504, ''Gateway Timeout'')]"

text \<open>\<^verbatim>\<open>statusMap[statusCode] || 'Unknown Status'\<close>: a missing entry and an empty one both
  give the default.\<close>

definition getStatusDescription :: "int \<Rightarrow> string" where
  "getStatusDescription code =
    (case map_of statusMap code of
       None \<Rightarrow> ''Unknown Status''
     | Some phrase \<Rightarrow> if phrase = [] then ''Unknown Status'' else phrase)"

definition getStatusCodeClass :: "int \<Rightarrow> string" where
  "getStatusCodeClass code =
    (if code \<ge> 200 \<and> code < 300 then ''status-2xx''
     else if code \<ge> 300 \<and> code < 400 then ''status-3xx''
     else if code \<ge> 400 \<and> code < 500 then ''status-4xx''
     else if code \<ge> 500 then ''status-5xx''
     else [])"

section \<open>checkUrl (utils/redirectUtils)\<close>

definition defaultOptions :: UrlCheckOptions where
  "defaultOptions =
    \<lparr>userAgent = Some ''Mozilla/5.0 (Windows NT 10.0; Win64; x64) AppleWebKit/537.36 (KHTML, like Gecko) Chrome/97.0.4692.71 Safari/537.36'',
     timeout = Some 10000,
     followRedirects = Some True,
     maxRedirects = Some 20\<rparr>"

text \<open>The spread \<^verbatim>\<open>{ ...defaultOptions, ...options }\<close>: a field present in \<open>options\<close> wins.\<close>

definition spread :: "'a option \<Rightarrow> 'a option \<Rightarrow> 'a option" where
  "spread d over = (case over of None \<Rightarrow> d | Some v \<Rightarrow> Some v)"

definition mergeOptions :: "UrlCheckOptions \<Rightarrow> UrlCheckOptions \<Rightarrow> UrlCheckOptions" where
  "mergeOptions d over =
    \<lparr>userAgent = spread (userAgent d) (userAgent over),
     timeout = spread (timeout d) (timeout over),
     followRedirects = spread (followRedirects d) (followRedirects over),
     maxRedirects = spread (maxRedirects d) (maxRedirects over)\<rparr>"

text \<open>Decimal rendering of an integer, as a template literal renders a number.\<close>

fun showNat :: "nat \<Rightarrow> string" where
  "showNat n =
    (if n < 10 then [''0123456789'' ! n]
     else showNat (n div 10) @ [''0123456789'' ! (n mod 10)])"

declare showNat.simps [simp del]

definition showInt :: "int \<Rightarrow> string" where
  "showInt i = (if i < 0 then CHR ''-'' # showNat (nat (- i)) else showNat (nat i))"

definition showNumber :: "int option \<Rightarrow> string" where
  "showNumber v = (case v of None \<Rightarrow> ''undefined'' | Some i \<Rightarrow> showInt i)"

definition maxRedirectsMessage :: "int option \<Rightarrow> string" where
  "maxRedirectsMessage limit = ''Maximum number of redirects ('' @ showNumber limit @ '') reached''"

text \<open>\<^verbatim>\<open>axios.get(url, {headers: {'User-Agent': ...}, maxRedirects: 0, validateStatus, timeout})\<close>.\<close>

definition axiosGet :: "env \<Rightarrow> nat \<Rightarrow> UrlCheckOptions \<Rightarrow> string \<Rightarrow> thrown + Response" where
  "axiosGet e n mergedOptions u = httpGet e n u (userAgent mergedOptions) (timeout mergedOptions)"

definition mkStep :: "string \<Rightarrow> Response \<Rightarrow> RedirectStep" where
  "mkStep u response =
    \<lparr>url = u,
     statusCode = status response,
     statusText = responseStatusText response,
     location = map_of (responseHeaders response) ''location'',
     headers = responseHeaders response\<rparr>"

definition pushStep :: "RedirectResult \<Rightarrow> RedirectStep \<Rightarrow> RedirectResult" where
  "pushStep r st = r\<lparr>steps := steps r @ [st]\<rparr>"

text \<open>
  The state of the redirect loop: the result object being filled, the three local
  variables \<^verbatim>\<open>currentUrl\<close>, \<^verbatim>\<open>redirectCount\<close>, \<^verbatim>\<open>maxRedirects\<close>, and the number of requests
  issued so far.
\<close>

record loopState =
  result :: RedirectResult
  currentUrl :: string
  redirectCountVar :: int
  maxRedirectsVar :: int
  requests :: nat

datatype loopExit = Continue loopState | Break loopState | Raise thrown loopState

text \<open>One pass through the body of \<^verbatim>\<open>while (maxRedirects > 0)\<close>.\<close>

definition iteration :: "env \<Rightarrow> UrlCheckOptions \<Rightarrow> loopState \<Rightarrow> loopExit" where
  "iteration e mergedOptions s =
    (case axiosGet e (requests s) mergedOptions (currentUrl s) of
       Inl err \<Rightarrow> Raise err (s\<lparr>requests := Suc (requests s)\<rparr>)
     | Inr response \<Rightarrow>
        (let s1 = s\<lparr>requests := Suc (requests s),
                    result := pushStep (result s) (mkStep (currentUrl s) response)\<rparr>
         in if status response < 300 \<or> status response \<ge> 400 then Break s1
            else
              (case map_of (responseHeaders response) ''location'' of
                 None \<Rightarrow> Break s1
               | Some loc \<Rightarrow>
                  if loc = [] then Break s1
                  else
                    (case resolveUrl e loc (currentUrl s) of
                       None \<Rightarrow> Raise (JsError ''Invalid URL'') s1
                     | Some href \<Rightarrow>
                        (let s2 = s1\<lparr>currentUrl := href,
                                     redirectCountVar := redirectCountVar s1 + 1,
                                     maxRedirectsVar := maxRedirectsVar s1 - 1\<rparr>
                         in if list_ex (\<lambda>st. url st = href) (steps (result s2))
                            then Break (s2\<lparr>result := (result s2)\<lparr>error := Some ''Circular redirect detected''\<rparr>\<rparr>)
                            else Continue s2)))))"

lemma iteration_Continue_maxRedirectsVar:
  "iteration e m s = Continue s' \<Longrightarrow> maxRedirectsVar s' = maxRedirectsVar s - 1"
  by (auto simp: iteration_def Let_def split: sum.splits option.splits if_splits)

function traceLoop :: "env \<Rightarrow> UrlCheckOptions \<Rightarrow> loopState \<Rightarrow> thrown \<times> loopState + loopState" where
  "traceLoop e mergedOptions s =
    (if maxRedirectsVar s > 0 then
       (case iteration e mergedOptions s of
          Continue s' \<Rightarrow> traceLoop e mergedOptions s'
        | Break s' \<Rightarrow> Inr s'
        | Raise err s' \<Rightarrow> Inl (err, s'))
     else Inr s)"
  by pat_completeness auto
termination
  by (relation "measure (\<lambda>(e, m, s). nat (maxRedirectsVar s))")
     (auto dest: iteration_Continue_maxRedirectsVar)

declare traceLoop.simps [simp del]

text \<open>
  The statements after the loop, still inside \<^verbatim>\<open>try\<close>. The comparison
  \<^verbatim>\<open>redirectCount >= mergedOptions.maxRedirects\<close> is false against \<^verbatim>\<open>undefined\<close>;
  reading \<^verbatim>\<open>.url\<close> of the last element of an empty \<^verbatim>\<open>steps\<close> throws a TypeError.
\<close>

definition afterLoop :: "env \<Rightarrow> UrlCheckOptions \<Rightarrow> loopState \<Rightarrow> thrown \<times> RedirectResult + RedirectResult" where
  "afterLoop e mergedOptions s =
    (let r1 =
       (if maxRedirectsVar s = 0 \<and>
           (case maxRedirects mergedOptions of None \<Rightarrow> False | Some cap \<Rightarrow> redirectCountVar s \<ge> cap)
        then (result s)\<lparr>error := Some (maxRedirectsMessage (maxRedirects mergedOptions))\<rparr>
        else result s)
     in if steps r1 = []
        then Inl (JsError ''Cannot read properties of undefined (reading 'url')'', r1)
        else Inr (r1\<lparr>finalUrl := url (last (steps r1)),
                     redirectCount := redirectCountVar s,
                     totalTime := Some (endTime e - startTime e)\<rparr>))"

definition validUrl :: "string \<Rightarrow> bool" where
  "validUrl u \<longleftrightarrow> \<not> (u = [] \<or> (\<not> prefix ''http://'' u \<and> \<not> prefix ''https://'' u))"

definition initialResult :: "string \<Rightarrow> RedirectResult" where
  "initialResult u =
    \<lparr>initialUrl = u, finalUrl = u, steps = [], redirectCount = 0, totalTime = None, error = None\<rparr>"

text \<open>\<^verbatim>\<open>let maxRedirects = mergedOptions.maxRedirects || 20\<close>: undefined and 0 are falsy.\<close>

definition loopBound :: "UrlCheckOptions \<Rightarrow> int" where
  "loopBound mergedOptions =
    (case maxRedirects mergedOptions of None \<Rightarrow> 20 | Some n \<Rightarrow> if n = 0 then 20 else n)"

definition initialLoopState :: "string \<Rightarrow> UrlCheckOptions \<Rightarrow> loopState" where
  "initialLoopState u mergedOptions =
    \<lparr>result = initialResult u, currentUrl = u, redirectCountVar = 0,
     maxRedirectsVar = loopBound mergedOptions, requests = 0\<rparr>"

text \<open>
  The body of \<^verbatim>\<open>try\<close>. A throw is \<open>Inl\<close>, with the result object as mutated so far and
  the number of requests issued; a return is \<open>Inr\<close>.
\<close>

definition tryBlock :: "env \<Rightarrow> string \<Rightarrow> UrlCheckOptions \<Rightarrow> thrown \<times> RedirectResult \<times> nat + RedirectResult \<times> nat" where
  "tryBlock e u mergedOptions =
    (if \<not> validUrl u
     then Inl (JsError ''Invalid URL. Please include the protocol (http:// or https://)'', initialResult u, 0)
     else if followRedirects mergedOptions \<noteq> Some True then
       (case axiosGet e 0 mergedOptions u of
          Inl err \<Rightarrow> Inl (err, initialResult u, 1)
        | Inr response \<Rightarrow>
            Inr ((pushStep (initialResult u) (mkStep u response))
                   \<lparr>finalUrl := u, totalTime := Some (endTime e - startTime e)\<rparr>, 1))
     else
       (case traceLoop e mergedOptions (initialLoopState u mergedOptions) of
          Inl (err, s) \<Rightarrow> Inl (err, result s, requests s)
        | Inr s \<Rightarrow>
           (case afterLoop e mergedOptions s of
              Inl (err, r) \<Rightarrow> Inl (err, r, requests s)
            | Inr r \<Rightarrow> Inr (r, requests s))))"

text \<open>The \<^verbatim>\<open>catch\<close> block, run on the result object as the throw left it.\<close>

definition thrownMessage :: "thrown \<Rightarrow> string" where
  "thrownMessage err =
    (case err of
       AxiosError msg resp cfg \<Rightarrow> msg
     | JsError msg \<Rightarrow> msg
     | NonError \<Rightarrow> ''An unknown error occurred'')"

definition partialStep :: "string \<Rightarrow> thrown \<Rightarrow> RedirectStep list" where
  "partialStep u err =
    (case err of
       AxiosError msg (Some response) cfg \<Rightarrow>
         [\<lparr>url = (case cfg of None \<Rightarrow> u | Some c \<Rightarrow> if c = [] then u else c),
           statusCode = status response,
           statusText = responseStatusText response,
           location = None,
           headers = responseHeaders response\<rparr>]
     | _ \<Rightarrow> [])"

definition catchBlock :: "env \<Rightarrow> string \<Rightarrow> thrown \<Rightarrow> RedirectResult \<Rightarrow> RedirectResult" where
  "catchBlock e u err r =
    (let r1 = r\<lparr>error := Some (thrownMessage err), steps := steps r @ partialStep u err\<rparr>
     in r1\<lparr>finalUrl := (if length (steps r1) > 0 then url (last (steps r1)) else u),
            redirectCount := (if int (length (steps r1)) - 1 > 0 then int (length (steps r1)) - 1 else 0),
            totalTime := Some (endTime e - startTime e)\<rparr>)"

text \<open>\<open>checkUrl\<close> returns the result the promise resolves to, and the number of requests made.\<close>

definition checkUrl :: "env \<Rightarrow> string \<Rightarrow> UrlCheckOptions \<Rightarrow> RedirectResult \<times> nat" where
  "checkUrl e u options =
    (case tryBlock e u (mergeOptions defaultOptions options) of
       Inr (r, n) \<Rightarrow> (r, n)
     | Inl (err, r, n) \<Rightarrow> (catchBlock e u err r, n))"

text \<open>
  The same function on any options object. The spread copies every own key of
  \<open>options\<close>, also one that holds \<^verbatim>\<open>undefined\<close>, which then replaces the default.
\<close>

definition spreadKey :: "'a option \<Rightarrow> 'a property \<Rightarrow> 'a option" where
  "spreadKey d over = (case over of Absent \<Rightarrow> d | Undefined \<Rightarrow> None | Value v \<Rightarrow> Some v)"

definition mergeObject :: "UrlCheckOptions \<Rightarrow> OptionsObject \<Rightarrow> UrlCheckOptions" where
  "mergeObject d over =
    \<lparr>userAgent = spreadKey (userAgent d) (userAgentKey over),
     timeout = spreadKey (timeout d) (timeoutKey over),
     followRedirects = spreadKey (followRedirects d) (followRedirectsKey over),
     maxRedirects = spreadKey (maxRedirects d) (maxRedirectsKey over)\<rparr>"

definition checkUrlObject :: "env \<Rightarrow> string \<Rightarrow> OptionsObject \<Rightarrow> RedirectResult \<times> nat" where
  "checkUrlObject e u options =
    (case tryBlock e u (mergeObject defaultOptions options) of
       Inr (r, n) \<Rightarrow> (r, n)
     | Inl (err, r, n) \<Rightarrow> (catchBlock e u err r, n))"

text \<open>An options record as the object whose keys are absent or hold a value.\<close>

definition keyOf :: "'a option \<Rightarrow> 'a property" where
  "keyOf v = (case v of None \<Rightarrow> Absent | Some x \<Rightarrow> Value x)"

definition objectOf :: "UrlCheckOptions \<Rightarrow> OptionsObject" where
  "objectOf options =
    \<lparr>userAgentKey = keyOf (userAgent options),
     timeoutKey = keyOf (timeout options),
     followRedirectsKey = keyOf (followRedirects options),
     maxRedirectsKey = keyOf (maxRedirects options)\<rparr>"

section \<open>The endpoint (app/api/check-url/route)\<close>

text \<open>
  The value of a JSON number as \<^verbatim>\<open>JSON.parse\<close> reads it (a literal too large for a double
  reads as an infinity), and the JSON values a \<^verbatim>\<open>url\<close> key can hold; \<open>JCompound\<close> is any
  array or object.
\<close>

datatype jsNumber = Finite real | PosInfinity | NegInfinity

datatype jsonValue = JNull | JBool bool | JNumber jsNumber | JString string | JCompound

text \<open>
  What \<^verbatim>\<open>await request.json()\<close> gives: the JSON value null; a number, string or boolean
  (\<open>JsonPrimitive\<close>), on which the destructuring reads \<^verbatim>\<open>undefined\<close> for both names; or an
  object (an array is an object without the two keys) with the value of its \<^verbatim>\<open>url\<close> key,
  if it has one, and its \<^verbatim>\<open>options\<close>, read at the type the handler casts them to. A body
  that is not JSON makes \<^verbatim>\<open>request.json()\<close> throw.
\<close>

datatype requestBody =
  JsonNull
  | JsonPrimitive
  | JsonObject "jsonValue option" "UrlCheckOptions option"

text \<open>
  The response bodies. \<open>NonStringUrlResult v t msg\<close> is the result object \<^verbatim>\<open>checkUrl\<close>
  returns for a \<^verbatim>\<open>url\<close> that is not a string: \<^verbatim>\<open>initialUrl\<close> and \<^verbatim>\<open>finalUrl\<close> are \<open>v\<close>,
  \<^verbatim>\<open>steps\<close> is empty, \<^verbatim>\<open>redirectCount\<close> is 0, \<^verbatim>\<open>totalTime\<close> is \<open>t\<close> and \<^verbatim>\<open>error\<close> is \<open>msg\<close>.
\<close>

datatype payload =
  ErrorBody string
  | ResultBody RedirectResult
  | NonStringUrlResult jsonValue int string

record NextResponse =
  httpStatus :: int
  body :: payload

text \<open>
  \<^verbatim>\<open>NextResponse.json(data, {status})\<close>. \<open>fault\<close> says for which data building the response
  throws, and what.
\<close>

definition NextResponse_json :: "(payload \<Rightarrow> thrown option) \<Rightarrow> payload \<Rightarrow> int \<Rightarrow> thrown + NextResponse" where
  "NextResponse_json fault p st =
    (case fault p of Some err \<Rightarrow> Inl err | None \<Rightarrow> Inr \<lparr>httpStatus = st, body = p\<rparr>)"

definition emptyOptions :: UrlCheckOptions where
  "emptyOptions = \<lparr>userAgent = None, timeout = None, followRedirects = None, maxRedirects = None\<rparr>"

text \<open>\<^verbatim>\<open>!url\<close> on a JSON value: null, false, 0 and the empty string are falsy.\<close>

definition falsy :: "jsonValue \<Rightarrow> bool" where
  "falsy v =
    (case v of
       JNull \<Rightarrow> True
     | JBool b \<Rightarrow> b = False
     | JNumber n \<Rightarrow> n = Finite 0
     | JString s \<Rightarrow> s = []
     | JCompound \<Rightarrow> False)"

text \<open>
  \<^verbatim>\<open>checkUrl\<close> on a truthy \<^verbatim>\<open>url\<close> that is not a string: \<^verbatim>\<open>url.startsWith\<close> is not a function,
  the call throws a TypeError inside \<^verbatim>\<open>try\<close>, and the \<^verbatim>\<open>catch\<close> block returns the result
  with that message and no hops.
\<close>

definition checkUrlNonString :: "env \<Rightarrow> jsonValue \<Rightarrow> payload" where
  "checkUrlNonString e v =
    NonStringUrlResult v (endTime e - startTime e) ''url.startsWith is not a function''"

text \<open>The body of the handler's \<^verbatim>\<open>try\<close>; destructuring null throws a TypeError.\<close>

definition POST_try :: "env \<Rightarrow> (payload \<Rightarrow> thrown option) \<Rightarrow> thrown + requestBody \<Rightarrow> thrown + NextResponse" where
  "POST_try e fault parsed =
    (case parsed of
       Inl err \<Rightarrow> Inl err
     | Inr JsonNull \<Rightarrow> Inl (JsError ''Cannot destructure property 'url' of 'body' as it is null.'')
     | Inr JsonPrimitive \<Rightarrow> NextResponse_json fault (ErrorBody ''URL is required'') 400
     | Inr (JsonObject u options) \<Rightarrow>
        (case u of
           None \<Rightarrow> NextResponse_json fault (ErrorBody ''URL is required'') 400
         | Some v \<Rightarrow>
            if falsy v then NextResponse_json fault (ErrorBody ''URL is required'') 400
            else
              (case v of
                 JString s \<Rightarrow>
                   NextResponse_json fault
                     (ResultBody (fst (checkUrl e s (case options of None \<Rightarrow> emptyOptions | Some opts \<Rightarrow> opts))))
                     200
               | _ \<Rightarrow> NextResponse_json fault (checkUrlNonString e v) 200)))"

text \<open>\<open>POST\<close>: \<open>Inr\<close> is the response sent, \<open>Inl\<close> a throw that leaves the handler.\<close>

definition POST :: "env \<Rightarrow> (payload \<Rightarrow> thrown option) \<Rightarrow> thrown + requestBody \<Rightarrow> thrown + NextResponse" where
  "POST e fault parsed =
    (case POST_try e fault parsed of
       Inr resp \<Rightarrow> Inr resp
     | Inl err \<Rightarrow> NextResponse_json fault (ErrorBody (thrownMessage err)) 500)"

section \<open>Redirect chains\<close>

text \<open>
  \<open>redirectsTo e m n u r target\<close>: request number \<open>n\<close>, sent to \<open>u\<close>, is answered by \<open>r\<close>, a
  3xx response whose non-empty Location resolves against \<open>u\<close> to \<open>target\<close>.
\<close>

definition redirectsTo :: "env \<Rightarrow> UrlCheckOptions \<Rightarrow> nat \<Rightarrow> string \<Rightarrow> Response \<Rightarrow> string \<Rightarrow> bool" where
  "redirectsTo e m n u r target \<longleftrightarrow>
    axiosGet e n m u = Inr r \<and> 300 \<le> status r \<and> status r < 400 \<and>
    (case map_of (responseHeaders r) ''location'' of
       None \<Rightarrow> False
     | Some loc \<Rightarrow> loc \<noteq> [] \<and> resolveUrl e loc u = Some target)"

text \<open>
  A hop that ends the trace cleanly: not a 3xx status, or no (or an empty) Location.
\<close>

definition terminalStep :: "RedirectStep \<Rightarrow> bool" where
  "terminalStep st \<longleftrightarrow>
    statusCode st < 300 \<or> statusCode st \<ge> 400 \<or> location st = None \<or> location st = Some []"

text \<open>Sample servers. Locations are absolute and normalised, so they resolve to themselves.\<close>

definition found :: "string \<Rightarrow> Response" where
  "found loc = \<lparr>status = 302, responseStatusText = ''Found'', responseHeaders = [(''location'', loc)]\<rparr>"

definition urlA :: string where "urlA = ''http://a.example/''"

definition urlB :: string where "urlB = ''http://b.example/''"

text \<open>A redirects to B and B back to A.\<close>

definition circularEnv :: env where
  "circularEnv =
    \<lparr>httpGet = (\<lambda>n u ua t.
        if u = urlA then Inr (found urlB)
        else if u = urlB then Inr (found urlA)
        else Inl (AxiosError ''getaddrinfo ENOTFOUND'' None None)),
     resolveUrl = (\<lambda>loc base. Some loc),
     startTime = 1000, endTime = 1250\<rparr>"

text \<open>Every URL redirects to a longer, hence new, one.\<close>

definition endlessEnv :: env where
  "endlessEnv =
    \<lparr>httpGet = (\<lambda>n u ua t. Inr (found (u @ ''x''))),
     resolveUrl = (\<lambda>loc base. Some loc),
     startTime = 1000, endTime = 1250\<rparr>"

text \<open>A redirects to B, and the request to B fails without a response.\<close>

definition refusedEnv :: env where
  "refusedEnv =
    \<lparr>httpGet = (\<lambda>n u ua t.
        if u = urlA then Inr (found urlB)
        else Inl (AxiosError ''connect ECONNREFUSED'' None None)),
     resolveUrl = (\<lambda>loc base. Some loc),
     startTime = 1000, endTime = 1250\<rparr>"

definition okResponse :: Response where
  "okResponse = \<lparr>status = 200, responseStatusText = ''OK'', responseHeaders = []\<rparr>"

definition badGateway :: Response where
  "badGateway = \<lparr>status = 502, responseStatusText = ''Bad Gateway'', responseHeaders = []\<rparr>"

text \<open>A redirects to B, and B answers 200.\<close>

definition answeredEnv :: env where
  "answeredEnv =
    \<lparr>httpGet = (\<lambda>n u ua t. if u = urlA then Inr (found urlB) else Inr okResponse),
     resolveUrl = (\<lambda>loc base. Some loc),
     startTime = 1000, endTime = 1250\<rparr>"

text \<open>A redirects to B, and the request to B fails with an axios error that carries a response.\<close>

definition faultResponseEnv :: env where
  "faultResponseEnv =
    \<lparr>httpGet = (\<lambda>n u ua t.
        if u = urlA then Inr (found urlB)
        else Inl (AxiosError ''Request failed with status code 502'' (Some badGateway) (Some urlB))),
     resolveUrl = (\<lambda>loc base. Some loc),
     startTime = 1000, endTime = 1250\<rparr>"

definition endlessUrl :: "nat \<Rightarrow> string" where
  "endlessUrl i = urlA @ replicate i (CHR ''x'')"

definition maxOptions :: "int \<Rightarrow> UrlCheckOptions" where
  "maxOptions n = emptyOptions\<lparr>maxRedirects := Some n\<rparr>"

text \<open>The options object \<^verbatim>\<open>{ maxRedirects: undefined }\<close>.\<close>

definition undefinedMaxRedirects :: OptionsObject where
  "undefinedMaxRedirects =
    \<lparr>userAgentKey = Absent, timeoutKey = Absent, followRedirectsKey = Absent,
     maxRedirectsKey = Undefined\<rparr>"

text \<open>
  The handler's answer is 400 for these parsed bodies: a number, string or boolean, and
  an object whose \<^verbatim>\<open>url\<close> key is missing or holds a falsy value.
\<close>

definition urlMissingOrFalsy :: "thrown + requestBody \<Rightarrow> bool" where
  "urlMissingOrFalsy parsed =
    (case parsed of
       Inl err \<Rightarrow> False
     | Inr JsonNull \<Rightarrow> False
     | Inr JsonPrimitive \<Rightarrow> True
     | Inr (JsonObject u options) \<Rightarrow> (case u of None \<Rightarrow> True | Some v \<Rightarrow> falsy v))"

text \<open>Building a response never throws.\<close>

definition noFault :: "payload \<Rightarrow> thrown option" where
  "noFault p = None"

section \<open>The specification's reading of the classifier\<close>

text \<open>
  Following the specification's words, for comparison with the code: the list of
  well-known codes the specification names for \<open>describeStatus\<close>, and the reason phrases
  the HTTP standard (RFC 9110) gives them.
\<close>

definition specWellKnownCodes :: "int list" where
  "specWellKnownCodes =
    [200, 201, 202, 204, 300, 301, 302, 303, 304, 305, 306, 307, 308,
     400, 401, 403, 404, 405, 408, 429, 500, 501, 502, 503, 504]"

definition standardReasonPhrase :: "(int \<times> string) list" where
  "standardReasonPhrase =
    [(200, ''OK''), (201, ''Created''), (202, ''Accepted''), (204, ''No Content''),
     (300, ''Multiple Choices''), (301, ''Moved Permanently''), (302, ''Found''),
     (303, ''See Other''), (304, ''Not Modified''), (305, ''Use Proxy''), (306, ''(Unused)''),
     (307, ''Temporary Redirect''), (308, ''Permanent Redirect''),
     (400, ''Bad Request''), (401, ''Unauthorized''), (403, ''Forbidden''),
     (404, ''Not Found''), (405, ''Method Not Allowed''), (408, ''Request Timeout''),
     (429, ''Too Many Requests''),
     (500, ''Internal Server Error''), (501, ''Not Implemented''), (502, ''Bad Gateway''),
     (503, ''Service Unavailable''), (504, ''Gateway Timeout'')]"

section \<open>Properties of the classifier\<close>

text \<open>
  C4, as stated, fails: a status code at or above 600 is outside 200--599, yet
  \<open>getStatusCodeClass\<close> puts it in the 5xx bucket, whose test \<^verbatim>\<open>statusCode >= 500\<close> has no
  upper bound. At 799 the class is \<open>status-5xx\<close>, not the empty class.
\<close>

theorem getStatusCodeClass_799_counterexample:
  "\<not> (200 \<le> (799::int) \<and> (799::int) \<le> 599) \<and> getStatusCodeClass 799 = ''status-5xx'' \<and> getStatusCodeClass 799 \<noteq> []"
  by (simp add: getStatusCodeClass_def)

text \<open>
  C4, amended: \<open>getStatusCodeClass\<close> returns the empty class exactly for the codes below
  200; it uses the half-open ranges [200,300), [300,400) and [400,500) for the 2xx, 3xx
  and 4xx buckets, and puts every code from 500 upwards (the codes at or above 600
  included) in the 5xx bucket.
\<close>

theorem getStatusCodeClass_buckets:
  "(code < 200 \<longrightarrow> getStatusCodeClass code = []) \<and>
   (200 \<le> code \<and> code < 300 \<longrightarrow> getStatusCodeClass code = ''status-2xx'') \<and>
   (300 \<le> code \<and> code < 400 \<longrightarrow> getStatusCodeClass code = ''status-3xx'') \<and>
   (400 \<le> code \<and> code < 500 \<longrightarrow> getStatusCodeClass code = ''status-4xx'') \<and>
   (500 \<le> code \<longrightarrow> getStatusCodeClass code = ''status-5xx'') \<and>
   (getStatusCodeClass code = [] \<longleftrightarrow> code < 200)"
  by (simp add: getStatusCodeClass_def)

theorem getStatusCodeClass_buckets_witness:
  "getStatusCodeClass 199 = [] \<and> getStatusCodeClass 299 = ''status-2xx'' \<and>
   getStatusCodeClass 300 = ''status-3xx'' \<and> getStatusCodeClass 499 = ''status-4xx'' \<and>
   getStatusCodeClass 600 = ''status-5xx'' \<and> getStatusCodeClass (- 1) = []"
  using getStatusCodeClass_buckets [of 199] getStatusCodeClass_buckets [of 299]
    getStatusCodeClass_buckets [of 300] getStatusCodeClass_buckets [of 499]
    getStatusCodeClass_buckets [of 600] getStatusCodeClass_buckets [of "- 1"]
  by simp

text \<open>
  C5, as stated, fails: the specification's list holds every code from 300 through 308,
  but the table of \<open>getStatusDescription\<close> has no entry for 305 and 306. At 305 the
  standard reason phrase is \<open>Use Proxy\<close> and the function returns \<open>Unknown Status\<close>.
\<close>

theorem getStatusDescription_305_counterexample:
  "305 \<in> set specWellKnownCodes \<and>
   map_of standardReasonPhrase 305 = Some ''Use Proxy'' \<and>
   getStatusDescription 305 = ''Unknown Status''"
  by (simp add: specWellKnownCodes_def standardReasonPhrase_def getStatusDescription_def
      statusMap_def)

text \<open>
  C5, amended: for every code of the specification's list other than 305 and 306,
  \<open>getStatusDescription\<close> returns the standard reason phrase; for every code that has no
  entry in the table, 305 and 306 among them, it returns \<open>Unknown Status\<close>.
\<close>

lemma statusMap_standard:
  "map_of statusMap code = Some phrase \<Longrightarrow> map_of standardReasonPhrase code = Some phrase \<and> phrase \<noteq> []"
  by (auto simp: statusMap_def standardReasonPhrase_def split: if_splits)

lemma statusMap_defined:
  "code \<in> set specWellKnownCodes \<Longrightarrow> code \<noteq> 305 \<Longrightarrow> code \<noteq> 306 \<Longrightarrow> map_of statusMap code \<noteq> None"
  by (auto simp: statusMap_def specWellKnownCodes_def)

theorem getStatusDescription_table:
  "(\<forall>code \<in> set specWellKnownCodes. code \<noteq> 305 \<and> code \<noteq> 306 \<longrightarrow>
      map_of standardReasonPhrase code = Some (getStatusDescription code)) \<and>
   (\<forall>code. map_of statusMap code = None \<longrightarrow> getStatusDescription code = ''Unknown Status'') \<and>
   map_of statusMap 305 = None \<and> map_of statusMap 306 = None"
proof (intro conjI ballI allI impI)
  fix code :: int
  assume "code \<in> set specWellKnownCodes" and "code \<noteq> 305 \<and> code \<noteq> 306"
  then obtain phrase where p: "map_of statusMap code = Some phrase"
    using statusMap_defined [of code] by auto
  from statusMap_standard [OF p] p
  show "map_of standardReasonPhrase code = Some (getStatusDescription code)"
    by (simp add: getStatusDescription_def)
next
  fix code :: int
  assume "map_of statusMap code = None"
  then show "getStatusDescription code = ''Unknown Status''"
    by (simp add: getStatusDescription_def)
next
  show "map_of statusMap 305 = None" by (simp add: statusMap_def)
next
  show "map_of statusMap 306 = None" by (simp add: statusMap_def)
qed

theorem getStatusDescription_table_witness:
  "getStatusDescription 308 = ''Permanent Redirect'' \<and>
   getStatusDescription 799 = ''Unknown Status'' \<and>
   getStatusDescription 306 = ''Unknown Status''"
proof -
  have m: "(308::int) \<in> set specWellKnownCodes" by (simp add: specWellKnownCodes_def)
  have s: "map_of standardReasonPhrase 308 = Some ''Permanent Redirect''"
    by (simp add: standardReasonPhrase_def)
  have n: "map_of statusMap 799 = None" by (simp add: statusMap_def)
  from getStatusDescription_table m s n show ?thesis by auto
qed

section \<open>The redirect loop\<close>

text \<open>
  What one pass through the loop body does to the state, by the way it ends.
\<close>

lemma iteration_redirect:
  assumes "redirectsTo e m (requests s) (currentUrl s) r target"
  shows "iteration e m s =
    (let s2 = s\<lparr>requests := Suc (requests s),
                 result := pushStep (result s) (mkStep (currentUrl s) r),
                 currentUrl := target,
                 redirectCountVar := redirectCountVar s + 1,
                 maxRedirectsVar := maxRedirectsVar s - 1\<rparr>
     in if target = currentUrl s \<or> list_ex (\<lambda>st. url st = target) (steps (result s))
        then Break (s2\<lparr>result := (result s2)\<lparr>error := Some ''Circular redirect detected''\<rparr>\<rparr>)
        else Continue s2)"
  using assms
  by (auto simp: redirectsTo_def iteration_def Let_def pushStep_def mkStep_def list_ex_iff
      split: option.splits)

lemma iteration_Continue_D:
  assumes "iteration e m s = Continue s'"
  shows "requests s' = Suc (requests s)"
    and "maxRedirectsVar s' = maxRedirectsVar s - 1"
    and "redirectCountVar s' = redirectCountVar s + 1"
    and "\<exists>st. steps (result s') = steps (result s) @ [st]"
    and "error (result s') = error (result s)"
    and "initialUrl (result s') = initialUrl (result s)"
  using assms
  by (auto simp: iteration_def Let_def pushStep_def split: sum.splits option.splits if_splits)

lemma iteration_Break_D:
  assumes "iteration e m s = Break s'"
  shows "requests s' = Suc (requests s)"
    and "\<exists>st. steps (result s') = steps (result s) @ [st]"
    and "initialUrl (result s') = initialUrl (result s)"
    and "(maxRedirectsVar s' = maxRedirectsVar s \<and> redirectCountVar s' = redirectCountVar s \<and>
          error (result s') = error (result s)) \<or>
         (maxRedirectsVar s' = maxRedirectsVar s - 1 \<and> redirectCountVar s' = redirectCountVar s + 1 \<and>
          error (result s') = Some ''Circular redirect detected'')"
  using assms
  by (auto simp: iteration_def Let_def pushStep_def split: sum.splits option.splits if_splits)

lemma iteration_Raise_D:
  assumes "iteration e m s = Raise err s'"
  shows "requests s' = Suc (requests s)"
    and "maxRedirectsVar s' = maxRedirectsVar s"
    and "redirectCountVar s' = redirectCountVar s"
    and "error (result s') = error (result s)"
    and "initialUrl (result s') = initialUrl (result s)"
    and "steps (result s') = steps (result s) \<or>
         (err = JsError ''Invalid URL'' \<and> (\<exists>st. steps (result s') = steps (result s) @ [st]))"
  using assms
  by (auto simp: iteration_def Let_def pushStep_def split: sum.splits option.splits if_splits)

lemma traceLoop_fresh_chain:
  assumes "\<forall>i<k. redirectsTo e m (requests s + i) (u i) (r i) (u (Suc i))"
    and "currentUrl s = u 0"
    and "maxRedirectsVar s = int k"
    and "\<forall>i\<le>k. \<forall>st \<in> set (steps (result s)). url st \<noteq> u i"
    and "inj_on u {..k}"
  shows "traceLoop e m s =
    Inr (s\<lparr>requests := requests s + k,
           result := (result s)\<lparr>steps := steps (result s) @ map (\<lambda>i. mkStep (u i) (r i)) [0..<k]\<rparr>,
           currentUrl := u k,
           redirectCountVar := redirectCountVar s + int k,
           maxRedirectsVar := 0\<rparr>)"
  using assms
proof (induction k arbitrary: s u r)
  case 0
  then show ?case by (simp add: traceLoop.simps [of e m s])
next
  case (Suc k)
  define s2 where "s2 = s\<lparr>requests := Suc (requests s),
                 result := pushStep (result s) (mkStep (currentUrl s) (r 0)),
                 currentUrl := u (Suc 0),
                 redirectCountVar := redirectCountVar s + 1,
                 maxRedirectsVar := maxRedirectsVar s - 1\<rparr>"
  from Suc.prems(1) have red: "redirectsTo e m (requests s) (currentUrl s) (r 0) (u (Suc 0))"
    using Suc.prems(2) by (metis add.right_neutral zero_less_Suc)
  from Suc.prems(5) have ne: "u (Suc 0) \<noteq> u 0"
    by (auto simp: inj_on_def)
  from Suc.prems(4) have nin: "\<not> list_ex (\<lambda>st. url st = u (Suc 0)) (steps (result s))"
    by (auto simp: list_ex_iff)
  have it: "iteration e m s = Continue s2"
    using iteration_redirect [OF red] ne nin Suc.prems(2) by (simp add: s2_def Let_def)
  have step: "traceLoop e m s = traceLoop e m s2"
    using Suc.prems(3) it by (simp add: traceLoop.simps [of e m s])
  have p1: "\<forall>i<k. redirectsTo e m (requests s2 + i) (u (Suc i)) (r (Suc i)) (u (Suc (Suc i)))"
    using Suc.prems(1) by (auto simp: s2_def)
  have p2: "currentUrl s2 = u (Suc 0)" by (simp add: s2_def)
  have p3: "maxRedirectsVar s2 = int k" using Suc.prems(3) by (simp add: s2_def)
  have p4: "\<forall>i\<le>k. \<forall>st \<in> set (steps (result s2)). url st \<noteq> u (Suc i)"
  proof (intro allI impI ballI)
    fix i st assume i: "i \<le> k" and st: "st \<in> set (steps (result s2))"
    from st have "st = mkStep (u 0) (r 0) \<or> st \<in> set (steps (result s))"
      by (auto simp: s2_def pushStep_def Suc.prems(2))
    then show "url st \<noteq> u (Suc i)"
    proof
      assume "st = mkStep (u 0) (r 0)"
      moreover have "u 0 \<noteq> u (Suc i)" using Suc.prems(5) i by (auto simp: inj_on_def)
      ultimately show ?thesis by (simp add: mkStep_def)
    next
      assume "st \<in> set (steps (result s))"
      with Suc.prems(4) i show ?thesis by auto
    qed
  qed
  have p5: "inj_on (\<lambda>i. u (Suc i)) {..k}"
    using Suc.prems(5) by (auto simp: inj_on_def)
  from Suc.IH [of s2 "\<lambda>i. u (Suc i)" "\<lambda>i. r (Suc i)", OF p1 p2 p3 p4 p5] step
  show ?case
    by (simp add: s2_def pushStep_def map_upt_Suc Suc.prems(2) del: upt_Suc)
qed

lemma traceLoop_conserves:
  "traceLoop e m s = Inr s' \<or> traceLoop e m s = Inl (err, s') \<Longrightarrow>
   redirectCountVar s' + maxRedirectsVar s' = redirectCountVar s + maxRedirectsVar s \<and>
   requests s \<le> requests s' \<and>
   int (requests s') \<le> int (requests s) + max 0 (maxRedirectsVar s) \<and>
   (0 \<le> maxRedirectsVar s \<longrightarrow> 0 \<le> maxRedirectsVar s') \<and>
   prefix (steps (result s)) (steps (result s')) \<and>
   initialUrl (result s') = initialUrl (result s) \<and>
   redirectCountVar s \<le> redirectCountVar s' \<and>
   (steps (result s') = [] \<longrightarrow> maxRedirectsVar s' = maxRedirectsVar s)"
proof (induction e m s rule: traceLoop.induct)
  case (1 e m s)
  show ?case
  proof (cases "maxRedirectsVar s > 0")
    case False
    with "1.prems" show ?thesis by (simp add: traceLoop.simps [of e m s])
  next
    case True
    show ?thesis
    proof (cases "iteration e m s")
      case (Continue s2)
      with True "1.prems" have "traceLoop e m s2 = Inr s' \<or> traceLoop e m s2 = Inl (err, s')"
        by (simp add: traceLoop.simps [of e m s])
      from "1.IH" [OF True Continue this] iteration_Continue_D [OF Continue] True
      show ?thesis by (auto dest: append_prefixD)
    next
      case (Break s2)
      with True "1.prems" have "s' = s2" by (simp add: traceLoop.simps [of e m s])
      with iteration_Break_D [OF Break] True show ?thesis by auto
    next
      case (Raise err2 s2)
      with True "1.prems" have "s' = s2" by (simp add: traceLoop.simps [of e m s])
      with iteration_Raise_D [OF Raise] True show ?thesis by auto
    qed
  qed
qed

lemma traceLoop_AxiosError_steps:
  "traceLoop e m s = Inl (AxiosError msg resp cfg, s') \<Longrightarrow>
   int (length (steps (result s'))) - redirectCountVar s' =
   int (length (steps (result s))) - redirectCountVar s"
proof (induction e m s rule: traceLoop.induct)
  case (1 e m s)
  then have pos: "maxRedirectsVar s > 0"
    by (auto simp: traceLoop.simps [of e m s] split: if_splits)
  show ?case
  proof (cases "iteration e m s")
    case (Continue s2)
    with pos "1.prems" have "traceLoop e m s2 = Inl (AxiosError msg resp cfg, s')"
      by (simp add: traceLoop.simps [of e m s])
    from "1.IH" [OF pos Continue this] iteration_Continue_D [OF Continue]
    show ?thesis by auto
  next
    case (Break s2)
    with pos "1.prems" show ?thesis by (simp add: traceLoop.simps [of e m s])
  next
    case (Raise err2 s2)
    with pos "1.prems" have "s' = s2" "err2 = AxiosError msg resp cfg"
      by (simp_all add: traceLoop.simps [of e m s])
    with iteration_Raise_D [OF Raise] show ?thesis by auto
  qed
qed

section \<open>Properties of checkUrl\<close>

lemma merged_followRedirects:
  "followRedirects (mergeOptions defaultOptions options) = Some True \<longleftrightarrow> followRedirects options \<noteq> Some False"
  by (cases "followRedirects options") (auto simp: mergeOptions_def defaultOptions_def spread_def)

lemma merged_maxRedirects:
  "maxRedirects (mergeOptions defaultOptions options) =
     Some (case maxRedirects options of None \<Rightarrow> 20 | Some n \<Rightarrow> n)"
  by (cases "maxRedirects options") (auto simp: mergeOptions_def defaultOptions_def spread_def)

lemma checkUrl_follow:
  assumes "validUrl u" and "followRedirects options \<noteq> Some False"
  shows "checkUrl e u options =
    (case traceLoop e (mergeOptions defaultOptions options)
            (initialLoopState u (mergeOptions defaultOptions options)) of
       Inl (err, s) \<Rightarrow> (catchBlock e u err (result s), requests s)
     | Inr s \<Rightarrow>
        (case afterLoop e (mergeOptions defaultOptions options) s of
           Inl (err, r) \<Rightarrow> (catchBlock e u err r, requests s)
         | Inr r \<Rightarrow> (r, requests s)))"
  using assms
  by (simp add: checkUrl_def tryBlock_def merged_followRedirects split: sum.splits prod.splits)

lemma showInt_3: "showInt 3 = ''3''" by code_simp
lemma showInt_0: "showInt 0 = ''0''" by code_simp

lemma url_mkStep: "url (mkStep u r) = u"
  by (simp add: mkStep_def)

lemma checkUrl_fresh_chain:
  assumes v: "validUrl (u 0)" and f: "followRedirects options \<noteq> Some False"
    and k: "loopBound (mergeOptions defaultOptions options) = int (Suc k)"
    and chain: "\<forall>i<Suc k. redirectsTo e (mergeOptions defaultOptions options) i (u i) (r i) (u (Suc i))"
    and inj: "inj_on u {..Suc k}"
  shows "checkUrl e (u 0) options =
    (\<lparr>initialUrl = u 0, finalUrl = u k,
      steps = map (\<lambda>i. mkStep (u i) (r i)) [0..<Suc k],
      redirectCount = int (Suc k),
      totalTime = Some (endTime e - startTime e),
      error = Some (maxRedirectsMessage (maxRedirects (mergeOptions defaultOptions options)))\<rparr>, Suc k)"
proof -
  define m where "m = mergeOptions defaultOptions options"
  define s0 where "s0 = initialLoopState (u 0) m"
  obtain n where mm: "maxRedirects m = Some n"
    by (simp add: m_def merged_maxRedirects)
  have cap: "n \<le> 1 + int k"
    using k mm by (simp add: m_def loopBound_def split: if_splits)
  have loop: "traceLoop e m s0 =
    Inr (s0\<lparr>requests := requests s0 + Suc k,
           result := (result s0)\<lparr>steps := steps (result s0) @ map (\<lambda>i. mkStep (u i) (r i)) [0..<Suc k]\<rparr>,
           currentUrl := u (Suc k),
           redirectCountVar := redirectCountVar s0 + int (Suc k),
           maxRedirectsVar := 0\<rparr>)"
    using chain inj k
    by (intro traceLoop_fresh_chain) (simp_all add: s0_def m_def initialLoopState_def initialResult_def)
  show ?thesis
    using checkUrl_follow [OF v f, of e] cap mm
    unfolding m_def [symmetric] s0_def [symmetric] loop
    by (simp add: afterLoop_def s0_def initialLoopState_def initialResult_def Let_def url_mkStep)
qed

lemma traceLoop_requests_pos:
  assumes "maxRedirectsVar s > 0"
    and "traceLoop e m s = Inr s' \<or> traceLoop e m s = Inl (err, s')"
  shows "Suc (requests s) \<le> requests s'"
proof (cases "iteration e m s")
  case (Continue s2)
  with assms have "traceLoop e m s2 = Inr s' \<or> traceLoop e m s2 = Inl (err, s')"
    by (simp add: traceLoop.simps [of e m s])
  from traceLoop_conserves [OF this] iteration_Continue_D(1) [OF Continue]
  show ?thesis by simp
next
  case (Break s2)
  with assms have "s' = s2" by (simp add: traceLoop.simps [of e m s])
  with iteration_Break_D(1) [OF Break] show ?thesis by simp
next
  case (Raise err2 s2)
  with assms have "s' = s2" by (simp add: traceLoop.simps [of e m s])
  with iteration_Raise_D(1) [OF Raise] show ?thesis by simp
qed

lemma checkUrl_requests:
  assumes "validUrl u" and "followRedirects options \<noteq> Some False"
  shows "\<exists>err s'. (traceLoop e (mergeOptions defaultOptions options)
            (initialLoopState u (mergeOptions defaultOptions options)) = Inr s' \<or>
          traceLoop e (mergeOptions defaultOptions options)
            (initialLoopState u (mergeOptions defaultOptions options)) = Inl (err, s')) \<and>
         snd (checkUrl e u options) = requests s'"
  unfolding checkUrl_follow [OF assms]
  by (cases "traceLoop e (mergeOptions defaultOptions options)
            (initialLoopState u (mergeOptions defaultOptions options))")
     (auto split: sum.splits prod.splits)

lemma catchBlock_fields:
  "error (catchBlock e u err r) = Some (thrownMessage err)"
  "steps (catchBlock e u err r) = steps r @ partialStep u err"
  "initialUrl (catchBlock e u err r) = initialUrl r"
  "totalTime (catchBlock e u err r) = Some (endTime e - startTime e)"
  "redirectCount (catchBlock e u err r) = max 0 (int (length (steps r @ partialStep u err)) - 1)"
  "finalUrl (catchBlock e u err r) =
     (if steps r @ partialStep u err = [] then u else url (last (steps r @ partialStep u err)))"
  by (simp_all add: catchBlock_def Let_def max_def)

lemma checkUrl_throw:
  "tryBlock e u (mergeOptions defaultOptions options) = Inl (err, r0, n0) \<Longrightarrow>
   checkUrl e u options = (catchBlock e u err r0, n0)"
  by (simp add: checkUrl_def)

lemma partialStep_length:
  "length (partialStep u (AxiosError msg resp cfg)) = (if resp = None then 0 else 1)"
  by (cases resp) (simp_all add: partialStep_def)

lemma endless_redirects:
  "redirectsTo endlessEnv m i (endlessUrl i) (found (endlessUrl (Suc i))) (endlessUrl (Suc i))"
  by (simp add: redirectsTo_def axiosGet_def endlessEnv_def endlessUrl_def found_def
      replicate_append_same)

lemma endlessUrl_inj: "inj_on endlessUrl A"
  by (auto simp: inj_on_def endlessUrl_def)

lemma validUrl_endlessUrl: "validUrl (endlessUrl 0)"
  by (simp add: validUrl_def endlessUrl_def urlA_def)

text \<open>
  C1, as stated, fails on the count: in the chain A \<rightarrow> B \<rightarrow> A the loop increments
  \<^verbatim>\<open>redirectCount\<close> before it looks for a repeated URL, so the redirect from B back to A
  is counted although A is not requested again. With the default options the two hops
  for A and B are recorded, the error is \<open>Circular redirect detected\<close>, and the returned
  \<open>redirectCount\<close> is 2, not 1.
\<close>

theorem checkUrl_circular_chain_counterexample:
  "validUrl urlA \<and> urlA \<noteq> urlB \<and>
   redirectsTo circularEnv (mergeOptions defaultOptions emptyOptions) 0 urlA (found urlB) urlB \<and>
   redirectsTo circularEnv (mergeOptions defaultOptions emptyOptions) 1 urlB (found urlA) urlA \<and>
   length (steps (fst (checkUrl circularEnv urlA emptyOptions))) = 2 \<and>
   error (fst (checkUrl circularEnv urlA emptyOptions)) = Some ''Circular redirect detected'' \<and>
   redirectCount (fst (checkUrl circularEnv urlA emptyOptions)) = 2 \<and>
   redirectCount (fst (checkUrl circularEnv urlA emptyOptions)) \<noteq> 1"
  by code_simp

text \<open>
  C1, amended: for every trace of a circular chain A \<rightarrow> B \<rightarrow> A (A's response redirects to
  B and B's response redirects back to A, A and B different) with \<open>followRedirects\<close> true or
  absent and a loop bound of at least 3, \<open>checkUrl\<close> makes two requests, records exactly
  two hops (for A and B; A is not re-added as a third hop), sets \<open>error\<close> to
  \<open>Circular redirect detected\<close>, ends at B, and returns \<open>redirectCount = 2\<close>.
\<close>

theorem checkUrl_circular_chain:
  assumes "validUrl A" and "A \<noteq> B"
    and "followRedirects options \<noteq> Some False"
    and "3 \<le> loopBound (mergeOptions defaultOptions options)"
    and "redirectsTo e (mergeOptions defaultOptions options) 0 A rA B"
    and "redirectsTo e (mergeOptions defaultOptions options) 1 B rB A"
  shows "checkUrl e A options =
    (\<lparr>initialUrl = A, finalUrl = B, steps = [mkStep A rA, mkStep B rB], redirectCount = 2,
      totalTime = Some (endTime e - startTime e), error = Some ''Circular redirect detected''\<rparr>, 2)"
proof -
  define m where "m = mergeOptions defaultOptions options"
  define s0 where "s0 = initialLoopState A m"
  define s1 where "s1 = s0\<lparr>requests := 1, result := pushStep (result s0) (mkStep A rA),
      currentUrl := B, redirectCountVar := 1, maxRedirectsVar := loopBound m - 1\<rparr>"
  define s2 where "s2 = s1\<lparr>requests := 2,
      result := (pushStep (result s1) (mkStep B rB))\<lparr>error := Some ''Circular redirect detected''\<rparr>,
      currentUrl := A, redirectCountVar := 2, maxRedirectsVar := loopBound m - 2\<rparr>"
  have i0: "iteration e m s0 = Continue s1"
    using iteration_redirect [of e m s0 rA B] assms(2,5)
    by (simp add: s0_def s1_def m_def initialLoopState_def initialResult_def Let_def)
  have i1: "iteration e m s1 = Break s2"
    using iteration_redirect [of e m s1 rB A] assms(2,6)
    by (simp add: s0_def s1_def s2_def m_def initialLoopState_def initialResult_def Let_def
        pushStep_def mkStep_def)
  have b0: "maxRedirectsVar s0 > 0" and b1: "maxRedirectsVar s1 > 0"
    using assms(4) by (simp_all add: s0_def s1_def m_def initialLoopState_def)
  have loop: "traceLoop e m s0 = Inr s2"
    using i0 i1 b0 b1 by (simp add: traceLoop.simps [of e m s0] traceLoop.simps [of e m s1])
  have after: "afterLoop e m s2 =
    Inr (\<lparr>initialUrl = A, finalUrl = B, steps = [mkStep A rA, mkStep B rB], redirectCount = 2,
      totalTime = Some (endTime e - startTime e), error = Some ''Circular redirect detected''\<rparr>)"
    using assms(4)
    by (simp add: afterLoop_def s2_def s1_def s0_def m_def initialLoopState_def initialResult_def
        pushStep_def mkStep_def Let_def)
  show ?thesis
    using checkUrl_follow [OF assms(1,3), of e] loop after
    by (simp add: m_def [symmetric] s0_def [symmetric] s2_def)
qed

theorem checkUrl_circular_chain_witness:
  "validUrl urlA \<and> urlA \<noteq> urlB \<and>
   followRedirects emptyOptions \<noteq> Some False \<and>
   3 \<le> loopBound (mergeOptions defaultOptions emptyOptions) \<and>
   redirectsTo circularEnv (mergeOptions defaultOptions emptyOptions) 0 urlA (found urlB) urlB \<and>
   redirectsTo circularEnv (mergeOptions defaultOptions emptyOptions) 1 urlB (found urlA) urlA \<and>
   checkUrl circularEnv urlA emptyOptions =
     (\<lparr>initialUrl = urlA, finalUrl = urlB,
       steps = [mkStep urlA (found urlB), mkStep urlB (found urlA)], redirectCount = 2,
       totalTime = Some 250, error = Some ''Circular redirect detected''\<rparr>, 2)"
proof -
  have h1: "validUrl urlA" by (simp add: validUrl_def urlA_def)
  have h2: "urlA \<noteq> urlB" by (simp add: urlA_def urlB_def)
  have h3: "followRedirects emptyOptions \<noteq> Some False" by (simp add: emptyOptions_def)
  have h4: "3 \<le> loopBound (mergeOptions defaultOptions emptyOptions)"
    by (simp add: loopBound_def merged_maxRedirects emptyOptions_def)
  have h5: "redirectsTo circularEnv (mergeOptions defaultOptions emptyOptions) 0 urlA (found urlB) urlB"
    by (simp add: redirectsTo_def axiosGet_def circularEnv_def found_def urlB_def)
  have h6: "redirectsTo circularEnv (mergeOptions defaultOptions emptyOptions) 1 urlB (found urlA) urlA"
    using h2 by (simp add: redirectsTo_def axiosGet_def circularEnv_def found_def urlA_def)
  from checkUrl_circular_chain [OF h1 h2 h3 h4 h5 h6] h1 h2 h3 h4 h5 h6
  show ?thesis by (simp add: circularEnv_def)
qed

text \<open>
  C2, as stated, fails on the number of hops: the loop runs while the remaining
  allowance is positive and issues one request per pass, so with \<open>maxRedirects = 3\<close> three
  requests are made and three hops recorded; the target of the third redirect is never
  requested. On a server that always redirects to a new URL the result has 3 hops, not 4.
\<close>

theorem checkUrl_limit_three_counterexample:
  "validUrl (endlessUrl 0) \<and>
   redirectsTo endlessEnv (mergeOptions defaultOptions (maxOptions 3)) 0 (endlessUrl 0) (found (endlessUrl 1)) (endlessUrl 1) \<and>
   redirectsTo endlessEnv (mergeOptions defaultOptions (maxOptions 3)) 1 (endlessUrl 1) (found (endlessUrl 2)) (endlessUrl 2) \<and>
   redirectsTo endlessEnv (mergeOptions defaultOptions (maxOptions 3)) 2 (endlessUrl 2) (found (endlessUrl 3)) (endlessUrl 3) \<and>
   redirectsTo endlessEnv (mergeOptions defaultOptions (maxOptions 3)) 3 (endlessUrl 3) (found (endlessUrl 4)) (endlessUrl 4) \<and>
   distinct [endlessUrl 0, endlessUrl 1, endlessUrl 2, endlessUrl 3, endlessUrl 4] \<and>
   redirectCount (fst (checkUrl endlessEnv (endlessUrl 0) (maxOptions 3))) = 3 \<and>
   snd (checkUrl endlessEnv (endlessUrl 0) (maxOptions 3)) = 3 \<and>
   length (steps (fst (checkUrl endlessEnv (endlessUrl 0) (maxOptions 3)))) = 3 \<and>
   length (steps (fst (checkUrl endlessEnv (endlessUrl 0) (maxOptions 3)))) \<noteq> 4"
  by code_simp

text \<open>
  C2, amended: for every trace with \<open>maxRedirects = 3\<close> and \<open>followRedirects\<close> true or absent
  where every response is a redirect to a new, never-before-seen URL, \<open>checkUrl\<close> stops
  after exactly 3 requests with 3 hops in total, returns \<open>redirectCount = 3\<close> and the URL
  of the third hop as \<open>finalUrl\<close>, and sets \<open>error\<close> to
  \<open>Maximum number of redirects (3) reached\<close>.
\<close>

theorem checkUrl_limit_three:
  assumes "validUrl (u 0)" and "followRedirects options \<noteq> Some False"
    and "maxRedirects options = Some 3"
    and "\<forall>i<3. redirectsTo e (mergeOptions defaultOptions options) i (u i) (r i) (u (Suc i))"
    and "inj_on u {..3}"
  shows "checkUrl e (u 0) options =
    (\<lparr>initialUrl = u 0, finalUrl = u 2,
      steps = [mkStep (u 0) (r 0), mkStep (u 1) (r 1), mkStep (u 2) (r 2)],
      redirectCount = 3,
      totalTime = Some (endTime e - startTime e),
      error = Some ''Maximum number of redirects (3) reached''\<rparr>, 3)"
proof -
  have b: "loopBound (mergeOptions defaultOptions options) = int (Suc 2)"
    using assms(3) by (simp add: loopBound_def merged_maxRedirects)
  have c: "\<forall>i<Suc 2. redirectsTo e (mergeOptions defaultOptions options) i (u i) (r i) (u (Suc i))"
    using assms(4) by (simp add: numeral_3_eq_3)
  have i: "inj_on u {..Suc 2}"
    using assms(5) by (simp add: numeral_3_eq_3)
  have l: "[0..<3::nat] = [0, 1, 2]" by (simp add: upt_rec)
  show ?thesis
    using checkUrl_fresh_chain [OF assms(1,2) b c i] assms(3)
    by (simp add: l merged_maxRedirects maxRedirectsMessage_def showNumber_def showInt_3)
qed

theorem checkUrl_limit_three_witness:
  "validUrl (endlessUrl 0) \<and> followRedirects (maxOptions 3) \<noteq> Some False \<and>
   maxRedirects (maxOptions 3) = Some 3 \<and>
   redirectsTo endlessEnv (mergeOptions defaultOptions (maxOptions 3)) 0 (endlessUrl 0) (found (endlessUrl 1)) (endlessUrl 1) \<and>
   redirectsTo endlessEnv (mergeOptions defaultOptions (maxOptions 3)) 1 (endlessUrl 1) (found (endlessUrl 2)) (endlessUrl 2) \<and>
   redirectsTo endlessEnv (mergeOptions defaultOptions (maxOptions 3)) 2 (endlessUrl 2) (found (endlessUrl 3)) (endlessUrl 3) \<and>
   checkUrl endlessEnv (endlessUrl 0) (maxOptions 3) =
    (\<lparr>initialUrl = endlessUrl 0, finalUrl = endlessUrl 2,
      steps = [mkStep (endlessUrl 0) (found (endlessUrl 1)),
               mkStep (endlessUrl 1) (found (endlessUrl 2)),
               mkStep (endlessUrl 2) (found (endlessUrl 3))],
      redirectCount = 3,
      totalTime = Some 250,
      error = Some ''Maximum number of redirects (3) reached''\<rparr>, 3)"
proof -
  have h2: "followRedirects (maxOptions 3) \<noteq> Some False"
    and h3: "maxRedirects (maxOptions 3) = Some 3"
    by (simp_all add: maxOptions_def emptyOptions_def)
  have h4: "\<forall>i<3. redirectsTo endlessEnv (mergeOptions defaultOptions (maxOptions 3)) i
      (endlessUrl i) (found (endlessUrl (Suc i))) (endlessUrl (Suc i))"
    by (simp add: endless_redirects)
  from checkUrl_limit_three [of endlessUrl "maxOptions 3" endlessEnv "\<lambda>i. found (endlessUrl (Suc i))",
      OF validUrl_endlessUrl h2 h3 h4 endlessUrl_inj]
    validUrl_endlessUrl h2 h3 endless_redirects [of _ 0] endless_redirects [of _ 1]
    endless_redirects [of _ 2]
  show ?thesis by (simp add: endlessEnv_def numeral_2_eq_2 numeral_3_eq_3)
qed

text \<open>
  What the \<^verbatim>\<open>catch\<close> block returns as \<open>redirectCount\<close>: the length of the returned hop
  list minus one (0 for an empty list). For an axios fault raised by a request of the loop
  that is the loop's counter when the fault carries a response, and one less when it
  carries none.
\<close>

lemma checkUrl_error_path_redirectCount:
  "(tryBlock e u (mergeOptions defaultOptions options) = Inl (err, r0, n0) \<longrightarrow>
      steps (fst (checkUrl e u options)) = steps r0 @ partialStep u err \<and>
      redirectCount (fst (checkUrl e u options)) =
        max 0 (int (length (steps (fst (checkUrl e u options)))) - 1)) \<and>
   (validUrl u \<and> followRedirects options \<noteq> Some False \<and>
    traceLoop e (mergeOptions defaultOptions options)
      (initialLoopState u (mergeOptions defaultOptions options)) = Inl (AxiosError msg resp cfg, s) \<longrightarrow>
      redirectCount (fst (checkUrl e u options)) =
        (if resp = None then max 0 (redirectCountVar s - 1) else redirectCountVar s))"
proof (intro conjI impI)
  assume t: "tryBlock e u (mergeOptions defaultOptions options) = Inl (err, r0, n0)"
  show "steps (fst (checkUrl e u options)) = steps r0 @ partialStep u err"
    by (simp add: checkUrl_throw [OF t] catchBlock_fields)
  show "redirectCount (fst (checkUrl e u options)) =
        max 0 (int (length (steps (fst (checkUrl e u options)))) - 1)"
    by (simp add: checkUrl_throw [OF t] catchBlock_fields)
next
  define m where "m = mergeOptions defaultOptions options"
  assume a: "validUrl u \<and> followRedirects options \<noteq> Some False \<and>
    traceLoop e (mergeOptions defaultOptions options)
      (initialLoopState u (mergeOptions defaultOptions options)) = Inl (AxiosError msg resp cfg, s)"
  then have run: "traceLoop e m (initialLoopState u m) = Inl (AxiosError msg resp cfg, s)"
    by (simp add: m_def)
  from traceLoop_AxiosError_steps [OF run]
  have len: "int (length (steps (result s))) = redirectCountVar s"
    by (simp add: initialLoopState_def initialResult_def)
  have "checkUrl e u options = (catchBlock e u (AxiosError msg resp cfg) (result s), requests s)"
    using a checkUrl_follow [of u options e] by simp
  then show "redirectCount (fst (checkUrl e u options)) =
        (if resp = None then max 0 (redirectCountVar s - 1) else redirectCountVar s)"
    using len by (auto simp: catchBlock_fields partialStep_length)
qed

text \<open>
  C3: the code does not return the number of redirects followed when a request fails
  without a response. The \<^verbatim>\<open>try\<close> path ends with \<^verbatim>\<open>result.redirectCount = redirectCount\<close>,
  the \<^verbatim>\<open>catch\<close> path with \<^verbatim>\<open>result.steps.length - 1\<close>. When A redirects to B and the
  request to B is refused, one redirect has been followed (the loop's counter is 1), one
  hop is recorded and the returned \<open>redirectCount\<close> is 0; when B answers, or when the
  fault at B carries a response, the same redirect is counted and \<open>redirectCount\<close> is 1.
\<close>

theorem checkUrl_refused_redirectCount:
  "redirectsTo refusedEnv (mergeOptions defaultOptions emptyOptions) 0 urlA (found urlB) urlB \<and>
   axiosGet refusedEnv 1 (mergeOptions defaultOptions emptyOptions) urlB =
     Inl (AxiosError ''connect ECONNREFUSED'' None None) \<and>
   isl (traceLoop refusedEnv (mergeOptions defaultOptions emptyOptions)
          (initialLoopState urlA (mergeOptions defaultOptions emptyOptions))) \<and>
   redirectCountVar (snd (projl (traceLoop refusedEnv (mergeOptions defaultOptions emptyOptions)
          (initialLoopState urlA (mergeOptions defaultOptions emptyOptions))))) = 1 \<and>
   error (fst (checkUrl refusedEnv urlA emptyOptions)) = Some ''connect ECONNREFUSED'' \<and>
   length (steps (fst (checkUrl refusedEnv urlA emptyOptions))) = 1 \<and>
   redirectCount (fst (checkUrl refusedEnv urlA emptyOptions)) = 0 \<and>
   error (fst (checkUrl answeredEnv urlA emptyOptions)) = None \<and>
   length (steps (fst (checkUrl answeredEnv urlA emptyOptions))) = 2 \<and>
   redirectCount (fst (checkUrl answeredEnv urlA emptyOptions)) = 1 \<and>
   error (fst (checkUrl faultResponseEnv urlA emptyOptions)) = Some ''Request failed with status code 502'' \<and>
   length (steps (fst (checkUrl faultResponseEnv urlA emptyOptions))) = 2 \<and>
   redirectCount (fst (checkUrl faultResponseEnv urlA emptyOptions)) = 1"
  by code_simp

text \<open>
  A loop that ends on a terminal response leaves a positive allowance, so the statement
  after the loop sets no error: such a trace returns without \<open>error\<close>.
\<close>

lemma iteration_Continue_steps:
  assumes "iteration e m s = Continue s'"
  shows "\<exists>st. steps (result s') = steps (result s) @ [st] \<and> \<not> terminalStep st"
  using assms
  by (auto simp: iteration_def Let_def pushStep_def mkStep_def terminalStep_def
      split: sum.splits option.splits if_splits)

lemma iteration_Break_steps:
  assumes "iteration e m s = Break s'"
  shows "\<exists>st. steps (result s') = steps (result s) @ [st] \<and>
     (if terminalStep st
      then maxRedirectsVar s' = maxRedirectsVar s \<and> error (result s') = error (result s)
      else error (result s') = Some ''Circular redirect detected'')"
  using assms
  by (auto simp: iteration_def Let_def pushStep_def mkStep_def terminalStep_def
      split: sum.splits option.splits if_splits)

lemma traceLoop_clean_break:
  assumes "traceLoop e m s = Inr s'"
    and "\<forall>st \<in> set (steps (result s)). \<not> terminalStep st"
    and "steps (result s') \<noteq> []"
    and "terminalStep (last (steps (result s')))"
  shows "maxRedirectsVar s' > 0 \<and> error (result s') = error (result s)"
  using assms
proof (induction e m s rule: traceLoop.induct)
  case (1 e m s)
  show ?case
  proof (cases "maxRedirectsVar s > 0")
    case False
    with "1.prems"(1) have "s' = s" by (simp add: traceLoop.simps [of e m s])
    with "1.prems"(2,3,4) show ?thesis by auto
  next
    case True
    show ?thesis
    proof (cases "iteration e m s")
      case (Continue s2)
      with True "1.prems"(1) have run: "traceLoop e m s2 = Inr s'"
        by (simp add: traceLoop.simps [of e m s])
      from iteration_Continue_steps [OF Continue] "1.prems"(2)
      have j: "\<forall>st \<in> set (steps (result s2)). \<not> terminalStep st" by auto
      from "1.IH" [OF True Continue run j "1.prems"(3,4)] iteration_Continue_D(5) [OF Continue]
      show ?thesis by simp
    next
      case (Break s2)
      with True "1.prems"(1) have "s' = s2" by (simp add: traceLoop.simps [of e m s])
      with iteration_Break_steps [OF Break] "1.prems"(4) True show ?thesis
        by (auto split: if_splits)
    next
      case (Raise err2 s2)
      with True "1.prems"(1) show ?thesis by (simp add: traceLoop.simps [of e m s])
    qed
  qed
qed

lemma checkUrl_terminal_no_error:
  assumes "validUrl u" and "followRedirects options \<noteq> Some False"
    and "traceLoop e (mergeOptions defaultOptions options)
           (initialLoopState u (mergeOptions defaultOptions options)) = Inr s'"
    and "steps (result s') \<noteq> []"
    and "terminalStep (last (steps (result s')))"
  shows "error (fst (checkUrl e u options)) = None \<and>
         steps (fst (checkUrl e u options)) = steps (result s')"
proof -
  define m where "m = mergeOptions defaultOptions options"
  have run: "traceLoop e m (initialLoopState u m) = Inr s'"
    using assms(3) by (simp add: m_def)
  from traceLoop_clean_break [OF run _ assms(4,5)]
  have c: "maxRedirectsVar s' > 0" "error (result s') = None"
    by (simp_all add: initialLoopState_def initialResult_def)
  have "afterLoop e m s' =
    Inr ((result s')\<lparr>finalUrl := url (last (steps (result s'))),
                     redirectCount := redirectCountVar s',
                     totalTime := Some (endTime e - startTime e)\<rparr>)"
    using c(1) assms(4) by (simp add: afterLoop_def Let_def)
  with checkUrl_follow [OF assms(1,2), of e] run c(2) show ?thesis
    by (simp add: m_def)
qed

text \<open>
  C6: the code sets the maximum-redirects message also when the loop was left by the
  circular-redirect \<^verbatim>\<open>break\<close> in the pass that used up the last permitted redirect. With
  \<open>maxRedirects = 2\<close> and the chain A \<rightarrow> B \<rightarrow> A the loop ends with the error
  \<open>Circular redirect detected\<close> and a remaining allowance of 0, and the statement after the
  loop overwrites the error: the result carries \<open>Maximum number of redirects (2) reached\<close>.
\<close>

theorem checkUrl_circular_on_last_redirect:
  "redirectsTo circularEnv (mergeOptions defaultOptions (maxOptions 2)) 0 urlA (found urlB) urlB \<and>
   redirectsTo circularEnv (mergeOptions defaultOptions (maxOptions 2)) 1 urlB (found urlA) urlA \<and>
   \<not> isl (traceLoop circularEnv (mergeOptions defaultOptions (maxOptions 2))
          (initialLoopState urlA (mergeOptions defaultOptions (maxOptions 2)))) \<and>
   error (result (projr (traceLoop circularEnv (mergeOptions defaultOptions (maxOptions 2))
          (initialLoopState urlA (mergeOptions defaultOptions (maxOptions 2)))))) =
     Some ''Circular redirect detected'' \<and>
   maxRedirectsVar (projr (traceLoop circularEnv (mergeOptions defaultOptions (maxOptions 2))
          (initialLoopState urlA (mergeOptions defaultOptions (maxOptions 2))))) = 0 \<and>
   error (fst (checkUrl circularEnv urlA (maxOptions 2))) = Some ''Maximum number of redirects (2) reached''"
  by code_simp

text \<open>
  On an options record (every key absent or holding a value, \<open>maxRedirects\<close> an integer)
  every throw inside \<^verbatim>\<open>try\<close> is a value \<open>Inl\<close> of \<open>tryBlock\<close>, the loop terminates, and
  \<open>checkUrl\<close> returns a result with all summary fields set. An invalid URL gives the
  Invalid URL message and no hops; a throw gives the thrown value's message and the hops
  recorded so far; a detected loop and an exhausted allowance leave \<open>error\<close> set.
\<close>

lemma checkUrl_never_throws:
  "\<exists>r n. checkUrl e u options = (r, n) \<and>
     initialUrl r = u \<and> totalTime r = Some (endTime e - startTime e) \<and> 0 \<le> redirectCount r \<and>
     finalUrl r = (if steps r = [] then u else url (last (steps r))) \<and>
     (\<not> validUrl u \<longrightarrow>
        error r = Some ''Invalid URL. Please include the protocol (http:// or https://)'' \<and>
        steps r = [] \<and> n = 0) \<and>
     (\<forall>err r0 n0. tryBlock e u (mergeOptions defaultOptions options) = Inl (err, r0, n0) \<longrightarrow>
        error r = Some (thrownMessage err) \<and> steps r = steps r0 @ partialStep u err) \<and>
     (validUrl u \<and> followRedirects options = Some False \<longrightarrow>
        (\<forall>err. axiosGet e 0 (mergeOptions defaultOptions options) u = Inl err \<longrightarrow>
           error r = Some (thrownMessage err) \<and> steps r = partialStep u err)) \<and>
     (validUrl u \<and> followRedirects options \<noteq> Some False \<longrightarrow>
        (\<forall>err s. traceLoop e (mergeOptions defaultOptions options)
                   (initialLoopState u (mergeOptions defaultOptions options)) = Inl (err, s) \<longrightarrow>
           error r = Some (thrownMessage err) \<and> steps r = steps (result s) @ partialStep u err) \<and>
        (\<forall>s. traceLoop e (mergeOptions defaultOptions options)
                   (initialLoopState u (mergeOptions defaultOptions options)) = Inr s \<and>
             error (result s) = Some ''Circular redirect detected'' \<longrightarrow>
           error r \<noteq> None \<and> steps r = steps (result s)) \<and>
        (\<forall>s. traceLoop e (mergeOptions defaultOptions options)
                   (initialLoopState u (mergeOptions defaultOptions options)) = Inr s \<and>
             maxRedirectsVar s = 0 \<longrightarrow>
           error r = Some (maxRedirectsMessage (maxRedirects (mergeOptions defaultOptions options))) \<and>
           steps r = steps (result s)))"
proof -
  define m where "m = mergeOptions defaultOptions options"
  define s0 where "s0 = initialLoopState u m"
  obtain cap where mm: "maxRedirects m = Some cap"
    by (simp add: m_def merged_maxRedirects)
  have bound: "loopBound m = (if cap = 0 then 20 else cap)"
    using mm by (simp add: loopBound_def)
  consider (invalid) "\<not> validUrl u"
    | (single) "validUrl u" "followRedirects options = Some False"
    | (follow) "validUrl u" "followRedirects options \<noteq> Some False"
    by blast
  then show ?thesis
  proof cases
    case invalid
    then show ?thesis
      by (simp add: checkUrl_def tryBlock_def catchBlock_def thrownMessage_def partialStep_def
          initialResult_def Let_def)
  next
    case single
    then have nf: "followRedirects m \<noteq> Some True"
      using merged_followRedirects [of options] by (simp add: m_def)
    show ?thesis
    proof (cases "axiosGet e 0 m u")
      case (Inl err)
      with single nf show ?thesis
        by (simp add: checkUrl_def tryBlock_def m_def [symmetric] catchBlock_fields
            initialResult_def)
    next
      case (Inr response)
      with single nf show ?thesis
        by (simp add: checkUrl_def tryBlock_def m_def [symmetric] pushStep_def
            initialResult_def url_mkStep)
    qed
  next
    case follow
    note cu = checkUrl_follow [OF follow, of e, folded m_def, folded s0_def]
    have try_eq: "tryBlock e u m =
      (case traceLoop e m s0 of
          Inl (err, s) \<Rightarrow> Inl (err, result s, requests s)
        | Inr s \<Rightarrow>
           (case afterLoop e m s of
              Inl (err, r) \<Rightarrow> Inl (err, r, requests s)
            | Inr r \<Rightarrow> Inr (r, requests s)))"
      unfolding m_def s0_def
      using follow merged_followRedirects [of options]
      by (simp add: tryBlock_def)
    show ?thesis
    proof (cases "traceLoop e m s0")
      case (Inl p)
      obtain err s where p: "p = (err, s)" by (cases p)
      from traceLoop_conserves [of e m s0 s err] Inl p
      have "initialUrl (result s) = u"
        by (simp add: s0_def initialLoopState_def initialResult_def)
      with follow Inl p show ?thesis
        unfolding m_def [symmetric] s0_def [symmetric]
        by (simp add: cu try_eq catchBlock_fields)
    next
      case (Inr s)
      from traceLoop_conserves [of e m s0 s undefined] Inr
      have inv: "initialUrl (result s) = u" "0 \<le> redirectCountVar s"
        "redirectCountVar s + maxRedirectsVar s = loopBound m"
        "steps (result s) = [] \<longrightarrow> maxRedirectsVar s = loopBound m"
        by (simp_all add: s0_def initialLoopState_def initialResult_def)
      have nz: "loopBound m \<noteq> 0" using bound by simp
      show ?thesis
      proof (cases "steps (result s) = []")
        case True
        with inv nz have "maxRedirectsVar s \<noteq> 0" by simp
        with True have al: "afterLoop e m s =
          Inl (JsError ''Cannot read properties of undefined (reading 'url')'', result s)"
          by (simp add: afterLoop_def Let_def)
        from follow Inr al True inv \<open>maxRedirectsVar s \<noteq> 0\<close> show ?thesis
          unfolding m_def [symmetric] s0_def [symmetric]
          by (simp add: cu try_eq catchBlock_fields partialStep_def)
      next
        case False
        have ge: "maxRedirectsVar s = 0 \<Longrightarrow> cap \<le> redirectCountVar s"
          using inv(2,3) bound by (simp split: if_splits)
        define r1 where "r1 =
          (if maxRedirectsVar s = 0 \<and> cap \<le> redirectCountVar s
           then (result s)\<lparr>error := Some (maxRedirectsMessage (maxRedirects m))\<rparr>
           else result s)"
        define r where "r = r1\<lparr>finalUrl := url (last (steps r1)),
                     redirectCount := redirectCountVar s,
                     totalTime := Some (endTime e - startTime e)\<rparr>"
        have st: "steps r1 = steps (result s)" by (simp add: r1_def)
        have al: "afterLoop e m s = Inr r"
          using False st mm by (simp add: afterLoop_def r_def r1_def [symmetric])
        have r: "steps r = steps (result s)" "initialUrl r = initialUrl (result s)"
            "redirectCount r = redirectCountVar s" "finalUrl r = url (last (steps (result s)))"
            "totalTime r = Some (endTime e - startTime e)"
            "maxRedirectsVar s = 0 \<longrightarrow> error r = Some (maxRedirectsMessage (maxRedirects m))"
            "error (result s) \<noteq> None \<longrightarrow> error r \<noteq> None"
          using ge by (simp_all add: r_def st) (simp_all add: r1_def)
        from follow Inr al r inv False show ?thesis
          unfolding m_def [symmetric] s0_def [symmetric]
          by (simp add: cu try_eq)
      qed
    qed
  qed
qed

text \<open>
  The hops a throw leaves in the result: those recorded before it, followed by one hop
  built from the response when the thrown value is an axios error that carries one.
\<close>

lemma checkUrl_partial_hop:
  "(tryBlock e u (mergeOptions defaultOptions options) = Inl (AxiosError msg (Some resp) cfg, r0, n0) \<longrightarrow>
      steps (fst (checkUrl e u options)) =
        steps r0 @ [\<lparr>url = (case cfg of None \<Rightarrow> u | Some c \<Rightarrow> if c = [] then u else c),
                     statusCode = status resp,
                     statusText = responseStatusText resp,
                     location = None,
                     headers = responseHeaders resp\<rparr>]) \<and>
   (tryBlock e u (mergeOptions defaultOptions options) = Inl (AxiosError msg None cfg, r0, n0) \<longrightarrow>
      steps (fst (checkUrl e u options)) = steps r0) \<and>
   (tryBlock e u (mergeOptions defaultOptions options) = Inl (JsError msg, r0, n0) \<longrightarrow>
      steps (fst (checkUrl e u options)) = steps r0) \<and>
   (tryBlock e u (mergeOptions defaultOptions options) = Inl (NonError, r0, n0) \<longrightarrow>
      steps (fst (checkUrl e u options)) = steps r0)"
  by (simp add: checkUrl_def catchBlock_fields partialStep_def)

text \<open>
  On the object of an options record \<open>checkUrlObject\<close> is \<open>checkUrl\<close>.
\<close>

lemma mergeObject_objectOf: "mergeObject d (objectOf options) = mergeOptions d options"
  by (simp add: mergeObject_def mergeOptions_def objectOf_def keyOf_def spreadKey_def spread_def
      split: option.splits)

lemma checkUrlObject_objectOf: "checkUrlObject e u (objectOf options) = checkUrl e u options"
  by (simp add: checkUrlObject_def checkUrl_def mergeObject_objectOf)

text \<open>
  C7: the code does not turn every exhausted limit into an \<open>error\<close>. With the options
  object \<^verbatim>\<open>{ maxRedirects: undefined }\<close> the spread replaces the default by \<^verbatim>\<open>undefined\<close>;
  the loop bound \<^verbatim>\<open>mergedOptions.maxRedirects || 20\<close> is 20, but the test after the loop
  compares \<^verbatim>\<open>redirectCount >= mergedOptions.maxRedirects\<close>, which is false against
  \<^verbatim>\<open>undefined\<close>. On a server that always redirects to a new URL the loop uses up its 20
  passes and the result is returned with 20 hops and no \<open>error\<close>; with the key absent the
  same trace carries \<open>Maximum number of redirects (20) reached\<close>.
\<close>

theorem checkUrlObject_undefined_maxRedirects:
  "mergeObject defaultOptions undefinedMaxRedirects = defaultOptions\<lparr>maxRedirects := None\<rparr> \<and>
   loopBound (mergeObject defaultOptions undefinedMaxRedirects) = 20 \<and>
   \<not> isl (traceLoop endlessEnv (mergeObject defaultOptions undefinedMaxRedirects)
          (initialLoopState (endlessUrl 0) (mergeObject defaultOptions undefinedMaxRedirects))) \<and>
   maxRedirectsVar (projr (traceLoop endlessEnv (mergeObject defaultOptions undefinedMaxRedirects)
          (initialLoopState (endlessUrl 0) (mergeObject defaultOptions undefinedMaxRedirects)))) = 0 \<and>
   snd (checkUrlObject endlessEnv (endlessUrl 0) undefinedMaxRedirects) = 20 \<and>
   length (steps (fst (checkUrlObject endlessEnv (endlessUrl 0) undefinedMaxRedirects))) = 20 \<and>
   redirectCount (fst (checkUrlObject endlessEnv (endlessUrl 0) undefinedMaxRedirects)) = 20 \<and>
   error (fst (checkUrlObject endlessEnv (endlessUrl 0) undefinedMaxRedirects)) = None \<and>
   error (fst (checkUrlObject endlessEnv (endlessUrl 0) (objectOf emptyOptions))) =
     Some ''Maximum number of redirects (20) reached''"
  by code_simp

text \<open>
  C8: for every valid http(s) URL whose request completes, when \<open>options.followRedirects\<close>
  is false \<open>checkUrl\<close> makes exactly one request and returns a single hop with the
  response's status code, \<open>redirectCount = 0\<close>, no \<open>error\<close>, and \<open>finalUrl\<close> equal to the
  input URL, whatever the status and whether or not a Location header is present.
\<close>

theorem checkUrl_no_follow:
  assumes "validUrl u" and "followRedirects options = Some False"
    and "axiosGet e 0 (mergeOptions defaultOptions options) u = Inr response"
  shows "checkUrl e u options =
    (\<lparr>initialUrl = u, finalUrl = u,
      steps = [\<lparr>url = u, statusCode = status response,
                statusText = responseStatusText response,
                location = map_of (responseHeaders response) ''location'',
                headers = responseHeaders response\<rparr>],
      redirectCount = 0,
      totalTime = Some (endTime e - startTime e),
      error = None\<rparr>, 1)"
  using assms merged_followRedirects [of options]
  by (simp add: checkUrl_def tryBlock_def pushStep_def mkStep_def initialResult_def)

theorem checkUrl_no_follow_witness:
  "validUrl urlA \<and>
   followRedirects (emptyOptions\<lparr>followRedirects := Some False\<rparr>) = Some False \<and>
   axiosGet circularEnv 0 (mergeOptions defaultOptions (emptyOptions\<lparr>followRedirects := Some False\<rparr>)) urlA =
     Inr (found urlB) \<and>
   checkUrl circularEnv urlA (emptyOptions\<lparr>followRedirects := Some False\<rparr>) =
    (\<lparr>initialUrl = urlA, finalUrl = urlA,
      steps = [\<lparr>url = urlA, statusCode = 302, statusText = ''Found'',
                location = Some urlB, headers = [(''location'', urlB)]\<rparr>],
      redirectCount = 0, totalTime = Some 250, error = None\<rparr>, 1)"
proof -
  have h1: "validUrl urlA" by (simp add: validUrl_def urlA_def)
  have h2: "followRedirects (emptyOptions\<lparr>followRedirects := Some False\<rparr>) = Some False" by simp
  have h3: "axiosGet circularEnv 0 (mergeOptions defaultOptions (emptyOptions\<lparr>followRedirects := Some False\<rparr>)) urlA =
     Inr (found urlB)"
    by (simp add: axiosGet_def circularEnv_def)
  from checkUrl_no_follow [OF h1 h2 h3] h1 h2 h3 show ?thesis
    by (simp add: found_def circularEnv_def)
qed

text \<open>
  C10: with \<open>options.maxRedirects = 0\<close> and \<open>followRedirects\<close> true or absent the loop bound
  is 20: at most 20 requests are made; \<open>checkUrl\<close> does not stop before the first
  redirect (when the first response redirects to another URL a second request is made);
  and when all 20 responses redirect to new URLs, 20 hops are recorded, \<open>redirectCount\<close>
  is 20 and the error message names 0 as the limit.
\<close>

theorem checkUrl_maxRedirects_zero:
  assumes v: "validUrl (u 0)" and f: "followRedirects options \<noteq> Some False"
    and z: "maxRedirects options = Some 0"
  shows "snd (checkUrl e (u 0) options) \<le> 20 \<and>
    (redirectsTo e (mergeOptions defaultOptions options) 0 (u 0) (r 0) (u 1) \<and> u 1 \<noteq> u 0 \<longrightarrow>
       2 \<le> snd (checkUrl e (u 0) options)) \<and>
    ((\<forall>i<20. redirectsTo e (mergeOptions defaultOptions options) i (u i) (r i) (u (Suc i))) \<and>
       inj_on u {..20} \<longrightarrow>
       checkUrl e (u 0) options =
         (\<lparr>initialUrl = u 0, finalUrl = u 19,
           steps = map (\<lambda>i. mkStep (u i) (r i)) [0..<20],
           redirectCount = 20,
           totalTime = Some (endTime e - startTime e),
           error = Some ''Maximum number of redirects (0) reached''\<rparr>, 20))"
proof (intro conjI impI)
  define m where "m = mergeOptions defaultOptions options"
  define s0 where "s0 = initialLoopState (u 0) m"
  have b: "loopBound m = 20"
    using z by (simp add: m_def loopBound_def merged_maxRedirects)
  from checkUrl_requests [OF v f, of e] obtain err s'
    where run: "traceLoop e m s0 = Inr s' \<or> traceLoop e m s0 = Inl (err, s')"
      and n: "snd (checkUrl e (u 0) options) = requests s'"
    by (auto simp: m_def s0_def)
  from traceLoop_conserves [OF run] b
  show "snd (checkUrl e (u 0) options) \<le> 20"
    by (simp add: n s0_def initialLoopState_def)
  {
    assume a: "redirectsTo e (mergeOptions defaultOptions options) 0 (u 0) (r 0) (u 1) \<and> u 1 \<noteq> u 0"
    define s1 where "s1 = s0\<lparr>requests := Suc (requests s0),
                 result := pushStep (result s0) (mkStep (currentUrl s0) (r 0)),
                 currentUrl := u 1,
                 redirectCountVar := redirectCountVar s0 + 1,
                 maxRedirectsVar := maxRedirectsVar s0 - 1\<rparr>"
    have it: "iteration e m s0 = Continue s1"
      using iteration_redirect [of e m s0 "r 0" "u 1"] a
      by (simp add: s1_def s0_def m_def initialLoopState_def initialResult_def Let_def)
    have pos0: "maxRedirectsVar s0 > 0"
      using b by (simp add: s0_def initialLoopState_def)
    have "traceLoop e m s0 = traceLoop e m s1"
      using it pos0 by (simp add: traceLoop.simps [of e m s0])
    with run have run1: "traceLoop e m s1 = Inr s' \<or> traceLoop e m s1 = Inl (err, s')"
      by simp
    have "maxRedirectsVar s1 > 0"
      using b by (simp add: s1_def s0_def initialLoopState_def)
    from traceLoop_requests_pos [OF this run1]
    show "2 \<le> snd (checkUrl e (u 0) options)"
      by (simp add: n s1_def s0_def initialLoopState_def)
  }
  {
    assume a: "(\<forall>i<20. redirectsTo e (mergeOptions defaultOptions options) i (u i) (r i) (u (Suc i))) \<and>
       inj_on u {..20}"
    have b': "loopBound (mergeOptions defaultOptions options) = int (Suc 19)"
      using b by (simp add: m_def)
    have c: "\<forall>i<Suc 19. redirectsTo e (mergeOptions defaultOptions options) i (u i) (r i) (u (Suc i))"
      using a by simp
    have i: "inj_on u {..Suc 19}" using a by simp
    show "checkUrl e (u 0) options =
         (\<lparr>initialUrl = u 0, finalUrl = u 19,
           steps = map (\<lambda>i. mkStep (u i) (r i)) [0..<20],
           redirectCount = 20,
           totalTime = Some (endTime e - startTime e),
           error = Some ''Maximum number of redirects (0) reached''\<rparr>, 20)"
      using checkUrl_fresh_chain [OF v f b' c i] z
      by (simp add: merged_maxRedirects maxRedirectsMessage_def showNumber_def showInt_0)
  }
qed

theorem checkUrl_maxRedirects_zero_witness:
  "validUrl (endlessUrl 0) \<and> followRedirects (maxOptions 0) \<noteq> Some False \<and>
   maxRedirects (maxOptions 0) = Some 0 \<and>
   snd (checkUrl endlessEnv (endlessUrl 0) (maxOptions 0)) = 20 \<and>
   length (steps (fst (checkUrl endlessEnv (endlessUrl 0) (maxOptions 0)))) = 20 \<and>
   redirectCount (fst (checkUrl endlessEnv (endlessUrl 0) (maxOptions 0))) = 20 \<and>
   error (fst (checkUrl endlessEnv (endlessUrl 0) (maxOptions 0))) =
     Some ''Maximum number of redirects (0) reached''"
proof -
  have h2: "followRedirects (maxOptions 0) \<noteq> Some False"
    and h3: "maxRedirects (maxOptions 0) = Some 0"
    by (simp_all add: maxOptions_def emptyOptions_def)
  have h4: "\<forall>i<20. redirectsTo endlessEnv (mergeOptions defaultOptions (maxOptions 0)) i
      (endlessUrl i) (found (endlessUrl (Suc i))) (endlessUrl (Suc i))"
    by (simp add: endless_redirects)
  from checkUrl_maxRedirects_zero [of endlessUrl "maxOptions 0" endlessEnv
      "\<lambda>i. found (endlessUrl (Suc i))", OF validUrl_endlessUrl h2 h3]
    h4 endlessUrl_inj [of "{..20}"]
  have "checkUrl endlessEnv (endlessUrl 0) (maxOptions 0) =
         (\<lparr>initialUrl = endlessUrl 0, finalUrl = endlessUrl 19,
           steps = map (\<lambda>i. mkStep (endlessUrl i) (found (endlessUrl (Suc i)))) [0..<20],
           redirectCount = 20,
           totalTime = Some (endTime endlessEnv - startTime endlessEnv),
           error = Some ''Maximum number of redirects (0) reached''\<rparr>, 20)"
    by blast
  with validUrl_endlessUrl h2 h3 show ?thesis by simp
qed

section \<open>Properties of the endpoint\<close>

text \<open>
  C9, as stated, fails on the 400: the handler tests \<^verbatim>\<open>!url\<close>, which holds for an empty
  string as well as for a missing key. A body whose \<open>url\<close> field is present and empty is
  answered with status 400.
\<close>

theorem POST_empty_url_counterexample:
  "POST circularEnv noFault (Inr (JsonObject (Some (JString [])) None)) =
     Inr \<lparr>httpStatus = 400, body = ErrorBody ''URL is required''\<rparr>"
  by (simp add: POST_def POST_try_def NextResponse_json_def noFault_def falsy_def)

text \<open>
  C9, amended: the endpoint returns status 200 with the trace result as body for every
  completed trace, whether or not the result's \<open>error\<close> field is set (a truthy \<open>url\<close> that
  is not a string included); it returns status 400 exactly when the parsed body is not
  null and its \<open>url\<close> is missing or falsy (no \<open>url\<close> key, as in every body that is a
  number, string or boolean, or a \<open>url\<close> that is null, false, 0 or the empty string); and
  it returns status 500 with the thrown message when building the response for the trace
  result throws, when the request body cannot be parsed, or when it is null.
\<close>

theorem POST_status:
  "(s \<noteq> [] \<and>
    fault (ResultBody (fst (checkUrl e s (case opts of None \<Rightarrow> emptyOptions | Some given \<Rightarrow> given)))) = None \<longrightarrow>
      POST e fault (Inr (JsonObject (Some (JString s)) opts)) =
        Inr \<lparr>httpStatus = 200,
             body = ResultBody (fst (checkUrl e s (case opts of None \<Rightarrow> emptyOptions | Some given \<Rightarrow> given)))\<rparr>) \<and>
   (\<not> falsy v \<and> (\<forall>s. v \<noteq> JString s) \<and> fault (checkUrlNonString e v) = None \<longrightarrow>
      POST e fault (Inr (JsonObject (Some v) opts)) =
        Inr \<lparr>httpStatus = 200, body = checkUrlNonString e v\<rparr>) \<and>
   (urlMissingOrFalsy parsed \<and> fault (ErrorBody ''URL is required'') = None \<longrightarrow>
      POST e fault parsed = Inr \<lparr>httpStatus = 400, body = ErrorBody ''URL is required''\<rparr>) \<and>
   (POST e fault parsed = Inr resp \<and> httpStatus resp = 400 \<longrightarrow> urlMissingOrFalsy parsed) \<and>
   (s \<noteq> [] \<and>
    fault (ResultBody (fst (checkUrl e s (case opts of None \<Rightarrow> emptyOptions | Some given \<Rightarrow> given)))) = Some err \<and>
    fault (ErrorBody (thrownMessage err)) = None \<longrightarrow>
      POST e fault (Inr (JsonObject (Some (JString s)) opts)) =
        Inr \<lparr>httpStatus = 500, body = ErrorBody (thrownMessage err)\<rparr>) \<and>
   (fault (ErrorBody (thrownMessage err)) = None \<longrightarrow>
      POST e fault (Inl err) = Inr \<lparr>httpStatus = 500, body = ErrorBody (thrownMessage err)\<rparr>) \<and>
   (fault (ErrorBody ''Cannot destructure property 'url' of 'body' as it is null.'') = None \<longrightarrow>
      POST e fault (Inr JsonNull) =
        Inr \<lparr>httpStatus = 500,
             body = ErrorBody ''Cannot destructure property 'url' of 'body' as it is null.''\<rparr>)"
proof (intro conjI impI)
  assume "POST e fault parsed = Inr resp \<and> httpStatus resp = 400"
  then show "urlMissingOrFalsy parsed"
    by (auto simp: POST_def POST_try_def NextResponse_json_def urlMissingOrFalsy_def
        split: sum.splits requestBody.splits option.splits if_splits jsonValue.splits)
next
  assume "urlMissingOrFalsy parsed \<and> fault (ErrorBody ''URL is required'') = None"
  then show "POST e fault parsed = Inr \<lparr>httpStatus = 400, body = ErrorBody ''URL is required''\<rparr>"
    by (auto simp: POST_def POST_try_def NextResponse_json_def urlMissingOrFalsy_def
        split: sum.splits requestBody.splits option.splits)
next
  assume "\<not> falsy v \<and> (\<forall>s. v \<noteq> JString s) \<and> fault (checkUrlNonString e v) = None"
  then show "POST e fault (Inr (JsonObject (Some v) opts)) =
        Inr \<lparr>httpStatus = 200, body = checkUrlNonString e v\<rparr>"
    by (cases v) (auto simp: POST_def POST_try_def NextResponse_json_def)
qed (auto simp: POST_def POST_try_def NextResponse_json_def falsy_def thrownMessage_def)

theorem POST_status_witness:
  "POST circularEnv noFault (Inr (JsonObject (Some (JString urlA)) None)) =
     Inr \<lparr>httpStatus = 200, body = ResultBody (fst (checkUrl circularEnv urlA emptyOptions))\<rparr> \<and>
   error (fst (checkUrl circularEnv urlA emptyOptions)) = Some ''Circular redirect detected'' \<and>
   POST circularEnv noFault (Inr (JsonObject (Some (JNumber (Finite 5))) None)) =
     Inr \<lparr>httpStatus = 200,
          body = NonStringUrlResult (JNumber (Finite 5)) 250 ''url.startsWith is not a function''\<rparr> \<and>
   POST circularEnv noFault (Inr (JsonObject None None)) =
     Inr \<lparr>httpStatus = 400, body = ErrorBody ''URL is required''\<rparr> \<and>
   POST circularEnv noFault (Inr JsonPrimitive) =
     Inr \<lparr>httpStatus = 400, body = ErrorBody ''URL is required''\<rparr> \<and>
   POST circularEnv noFault (Inr (JsonObject (Some (JNumber (Finite 0))) None)) =
     Inr \<lparr>httpStatus = 400, body = ErrorBody ''URL is required''\<rparr> \<and>
   POST circularEnv noFault (Inr (JsonObject (Some JNull) None)) =
     Inr \<lparr>httpStatus = 400, body = ErrorBody ''URL is required''\<rparr> \<and>
   POST circularEnv noFault (Inl (JsError ''Unexpected end of JSON input'')) =
     Inr \<lparr>httpStatus = 500, body = ErrorBody ''Unexpected end of JSON input''\<rparr> \<and>
   POST circularEnv noFault (Inr JsonNull) =
     Inr \<lparr>httpStatus = 500,
          body = ErrorBody ''Cannot destructure property 'url' of 'body' as it is null.''\<rparr>"
proof -
  have e: "error (fst (checkUrl circularEnv urlA emptyOptions)) = Some ''Circular redirect detected''"
    by code_simp
  have a: "urlA \<noteq> []" by (simp add: urlA_def)
  have t: "\<not> falsy (JNumber (Finite 5))" "\<forall>s. JNumber (Finite 5) \<noteq> JString s"
    by (simp_all add: falsy_def)
  have f: "urlMissingOrFalsy (Inr (JsonObject None None))" "urlMissingOrFalsy (Inr JsonPrimitive)"
    "urlMissingOrFalsy (Inr (JsonObject (Some (JNumber (Finite 0))) None))"
    "urlMissingOrFalsy (Inr (JsonObject (Some JNull) None))"
    by (simp_all add: urlMissingOrFalsy_def falsy_def)
  note p = POST_status [of urlA noFault circularEnv None "JNumber (Finite 5)" _ undefined
      "JsError ''Unexpected end of JSON input''"]
  from p [of "Inr (JsonObject None None)"] p [of "Inr JsonPrimitive"]
    p [of "Inr (JsonObject (Some (JNumber (Finite 0))) None)"]
    p [of "Inr (JsonObject (Some JNull) None)"] e a t f
  show ?thesis by (simp add: noFault_def thrownMessage_def checkUrlNonString_def circularEnv_def)
qed

end
